theory Spec2Isabelle
  imports Main
begin

section \<open>Data model of the socket handler\<close>

text \<open>
  The development embeds \<^verbatim>\<open>src/server/socket/socketHandler.js\<close> together with the
  parts of \<^verbatim>\<open>models/Message.js\<close>, \<^verbatim>\<open>models/Room.js\<close> and
  \<^verbatim>\<open>database/connection.js\<close> that its handlers call.

  Conventions of the embedding.
  \<^item> Identifiers (user ids, room ids, socket ids) and message contents are strings. A
    payload field is \<open>None\<close> when the client left it out and \<open>Some x\<close> when it sent the
    string \<open>x\<close>; payload fields of other JavaScript types are outside the model.
  \<^item> Every handler is an \<^verbatim>\<open>async\<close> function of the source, which gives up control
    at each \<^verbatim>\<open>await\<close>. A handler is embedded as one function from the state before
    the call to the state after it: this is what the handler does when no other handler
    runs between its awaits. The synchronous blocks in which \<^verbatim>\<open>leaveRoom\<close> and
    \<^verbatim>\<open>handleJoinRoom\<close> write the registry, the participant sets and the transport
    rooms (\<open>leave_sync\<close>, \<open>join_sync\<close>), the parts that follow them (\<open>leave_notify\<close>,
    \<open>join_notify\<close>) and the part of \<^verbatim>\<open>handleSendMessage\<close> after its checks
    (\<open>send_rest\<close>) are functions of their own; a run in which two handlers overlap is
    written with them, in the order in which the source runs them.
  \<^item> An exception is a value of type \<open>exn\<close>; a function of the source that can throw
    returns a sum, \<open>Inl\<close> carrying the exception.
  \<^item> Record ids made by \<^verbatim>\<open>uuidv4()\<close> and timestamps are left out of the records, and
    so is the update of \<^verbatim>\<open>lastActive\<close> that \<^verbatim>\<open>handleConnection\<close> starts.
  \<^item> The transport is Socket.IO: a socket is in the transport rooms it joined
    (the room each socket has under its own id is left out), \<^verbatim>\<open>io.to(r)\<close> reaches
    the live sockets in room \<open>r\<close> and \<^verbatim>\<open>socket.to(r)\<close> those but the sender.
\<close>

type_synonym userId = string
type_synonym roomId = string
type_synonym socketId = string

subsection \<open>JavaScript \<^verbatim>\<open>Set\<close>: insertion-ordered, no duplicates\<close>

typedef 'a jsset = "{xs :: 'a list. distinct xs}"
  morphisms elems Abs_jsset
  by (rule exI [of _ "[]"]) simp

setup_lifting type_definition_jsset

lift_definition set_new :: "'a jsset" is "[]"
  by simp

lift_definition set_add :: "'a jsset \<Rightarrow> 'a \<Rightarrow> 'a jsset"
  is "\<lambda>xs x. if x \<in> set xs then xs else xs @ [x]"
  by simp

lift_definition set_delete :: "'a jsset \<Rightarrow> 'a \<Rightarrow> 'a jsset"
  is "\<lambda>xs x. removeAll x xs"
  by (simp add: distinct_removeAll)

definition set_size :: "'a jsset \<Rightarrow> nat" where
  "set_size s = length (elems s)"

subsection \<open>Truthiness and \<^verbatim>\<open>String.prototype.trim\<close>\<close>

text \<open>
  \<^verbatim>\<open>!x\<close> holds of a payload field that is missing or the empty string;
  \<open>present\<close> returns the string of a truthy field.
\<close>

definition present :: "string option \<Rightarrow> string option" where
  "present v = (case v of None \<Rightarrow> None | Some x \<Rightarrow> if x = [] then None else Some x)"

text \<open>
  The white space and line terminators of ECMAScript that fit in one byte: TAB, LF, VT,
  FF, CR, SP and NBSP.
\<close>

definition js_whitespace :: "char \<Rightarrow> bool" where
  "js_whitespace c = (of_char c \<in> {9, 10, 11, 12, 13, 32, 160 :: nat})"

definition js_trim :: "string \<Rightarrow> string" where
  "js_trim s = rev (dropWhile js_whitespace (rev (dropWhile js_whitespace s)))"

subsection \<open>Persisted records and the in-memory database\<close>

record room =
  name :: string
  createdBy :: userId
  participants :: "userId list"
  isActive :: bool

record message =
  roomId :: roomId
  senderId :: userId
  senderUsername :: string
  content :: string
  messageType :: string

record database =
  connected :: bool
  users :: "userId \<rightharpoonup> string"
  rooms :: "roomId \<rightharpoonup> room"
  messages :: "message list"

datatype exn =
  DbNotConnected
  | ValidationError "string list"
  | InvalidUserId

subsection \<open>Sockets, registry entries, events and the handler state\<close>

record socket =
  sid :: socketId
  userId :: userId
  username :: string

record userInfo =
  socketId :: socketId
  info_username :: string
  currentRoom :: "roomId option"

datatype participant =
  Participant (p_userId: userId) (p_username: string) (isOnline: bool)

datatype event =
  Connected userId string
  | ConnectError string
  | ErrorEv string "string list"
  | RoomJoined roomId string "participant list"
  | RoomLeft roomId
  | UserJoined userId string message
  | UserLeft userId string message
  | ParticipantsUpdate roomId "participant list"
  | NewMessage message
  | RoomParticipants roomId "participant list"

text \<open>
  \<open>connectedUsers\<close> and \<open>roomParticipants\<close> are the two maps of the class.
  \<open>sockets\<close> are the live sockets of the transport and \<open>joined\<close> gives, for a socket
  id, the transport rooms the socket is in (\<^verbatim>\<open>socket.join\<close>, \<^verbatim>\<open>socket.leave\<close>).
  \<open>outbox\<close> is the log of emitted events, each with the id of the socket it is sent to.
\<close>

record state =
  connectedUsers :: "userId \<rightharpoonup> userInfo"
  roomParticipants :: "roomId \<rightharpoonup> userId jsset"
  sockets :: "socket list"
  joined :: "socketId \<Rightarrow> roomId set"
  db :: database
  outbox :: "(socketId \<times> event) list"

section \<open>Models\<close>

subsection \<open>\<^verbatim>\<open>Message.validateContent\<close>, \<^verbatim>\<open>Message.validate\<close>, \<^verbatim>\<open>Message.create\<close>\<close>

definition validateContent :: "string \<Rightarrow> string list" where
  "validateContent c =
     (if c = [] then [''Message content is required'']
      else (if length (js_trim c) < 1 then [''Message content cannot be empty''] else []) @
           (if length c > 1000
            then [''Message content must be no more than 1000 characters long''] else []))"

definition validateMessageType :: "string option \<Rightarrow> string list" where
  "validateMessageType t =
     (case present t of
        None \<Rightarrow> []
      | Some ty \<Rightarrow>
          if ty \<notin> set [''message'', ''notification'']
          then [''Message type must be one of: message, notification''] else [])"

definition validate :: "string \<Rightarrow> string \<Rightarrow> string \<Rightarrow> string \<Rightarrow> string option \<Rightarrow> string list" where
  "validate rid sender sname c t =
     (if rid = [] then [''Room ID is required''] else []) @
     (if sender = [] then [''Sender ID is required''] else []) @
     (if sname = [] then [''Sender username is required''] else []) @
     validateContent c @
     (case t of None \<Rightarrow> [] | Some _ \<Rightarrow> validateMessageType t)"

definition Message_create ::
  "database \<Rightarrow> string \<Rightarrow> string \<Rightarrow> string \<Rightarrow> string \<Rightarrow> string option \<Rightarrow> exn + (database \<times> message)" where
  "Message_create d rid sender sname c t =
     (let validationErrors = validate rid sender sname c t in
      if length validationErrors > 0 then Inl (ValidationError validationErrors)
      else
        let messageRecord = \<lparr>roomId = rid, senderId = sender, senderUsername = sname,
              content = js_trim c,
              messageType = (case present t of None \<Rightarrow> ''message'' | Some ty \<Rightarrow> ty)\<rparr>
        in if \<not> connected d then Inl DbNotConnected
           else Inr (d\<lparr>messages := messages d @ [messageRecord]\<rparr>, messageRecord))"

definition createNotification :: "database \<Rightarrow> roomId \<Rightarrow> string \<Rightarrow> exn + (database \<times> message)" where
  "createNotification d rid c = Message_create d rid ''system'' ''System'' c (Some ''notification'')"

definition createUserJoinedNotification :: "database \<Rightarrow> roomId \<Rightarrow> string \<Rightarrow> exn + (database \<times> message)" where
  "createUserJoinedNotification d rid uname = createNotification d rid (uname @ '' joined the room'')"

definition createUserLeftNotification :: "database \<Rightarrow> roomId \<Rightarrow> string \<Rightarrow> exn + (database \<times> message)" where
  "createUserLeftNotification d rid uname = createNotification d rid (uname @ '' left the room'')"

subsection \<open>\<^verbatim>\<open>Room.findById\<close>, \<^verbatim>\<open>addParticipant\<close>, \<^verbatim>\<open>removeParticipant\<close>\<close>

definition Room_findById :: "database \<Rightarrow> roomId \<Rightarrow> exn + room option" where
  "Room_findById d rid = (if \<not> connected d then Inl DbNotConnected else Inr (rooms d rid))"

text \<open>
  \<^verbatim>\<open>save\<close> writes the room object back with \<^verbatim>\<open>updateById\<close>, which throws on a
  disconnected database and does nothing for an id with no record.
\<close>

definition Room_save :: "database \<Rightarrow> roomId \<Rightarrow> room \<Rightarrow> exn + database" where
  "Room_save d rid r =
     (if \<not> connected d then Inl DbNotConnected
      else case rooms d rid of
             None \<Rightarrow> Inr d
           | Some _ \<Rightarrow> Inr (d\<lparr>rooms := (rooms d)(rid \<mapsto> r)\<rparr>))"

text \<open>
  The \<^verbatim>\<open>participants\<close> array of a \<^verbatim>\<open>Room\<close> object is the array of the stored
  record (the constructor keeps the reference), so both methods read the list of the
  record that is stored under the room id at the time of the call.
\<close>

definition addParticipant :: "database \<Rightarrow> roomId \<Rightarrow> userId \<Rightarrow> exn + database" where
  "addParticipant d rid uid =
     (if uid = [] then Inl InvalidUserId
      else case rooms d rid of
             None \<Rightarrow> Inr d
           | Some r \<Rightarrow>
               if uid \<notin> set (participants r)
               then Room_save d rid (r\<lparr>participants := participants r @ [uid]\<rparr>)
               else Inr d)"

definition removeParticipant :: "database \<Rightarrow> roomId \<Rightarrow> userId \<Rightarrow> exn + database" where
  "removeParticipant d rid uid =
     (if uid = [] then Inl InvalidUserId
      else case rooms d rid of
             None \<Rightarrow> Inr d
           | Some r \<Rightarrow>
               if uid \<in> set (participants r)
               then Room_save d rid (r\<lparr>participants := remove1 uid (participants r)\<rparr>)
               else Inr d)"

subsection \<open>Emitting events\<close>

definition emit :: "state \<Rightarrow> socketId list \<Rightarrow> event \<Rightarrow> state" where
  "emit st recipients ev = st\<lparr>outbox := outbox st @ map (\<lambda>i. (i, ev)) recipients\<rparr>"

text \<open>\<^verbatim>\<open>socket.emit(ev)\<close>: to the socket itself.\<close>

definition socket_emit :: "state \<Rightarrow> socket \<Rightarrow> event \<Rightarrow> state" where
  "socket_emit st sock ev = emit st [sid sock] ev"

text \<open>\<^verbatim>\<open>io.to(room)\<close>: every live socket in the transport room.\<close>

definition io_to :: "state \<Rightarrow> roomId \<Rightarrow> socketId list" where
  "io_to st rid = map sid (filter (\<lambda>x. rid \<in> joined st (sid x)) (sockets st))"

text \<open>\<^verbatim>\<open>socket.to(room)\<close>: every live socket in the transport room but the sender.\<close>

definition socket_to :: "state \<Rightarrow> socket \<Rightarrow> roomId \<Rightarrow> socketId list" where
  "socket_to st sock rid =
     map sid (filter (\<lambda>x. rid \<in> joined st (sid x) \<and> sid x \<noteq> sid sock) (sockets st))"

subsection \<open>\<^verbatim>\<open>getRoomParticipantsList\<close>\<close>

fun participants_loop :: "(userId \<rightharpoonup> userInfo) \<Rightarrow> userId list \<Rightarrow> participant list \<Rightarrow> participant list" where
  "participants_loop cu [] acc = acc"
| "participants_loop cu (u # us) acc =
     (case cu u of
        Some info \<Rightarrow> participants_loop cu us (acc @ [Participant u (info_username info) True])
      | None \<Rightarrow> participants_loop cu us acc)"

definition getRoomParticipantsList :: "state \<Rightarrow> roomId \<Rightarrow> participant list" where
  "getRoomParticipantsList st rid =
     (let participantIds = (case roomParticipants st rid of Some ps \<Rightarrow> ps | None \<Rightarrow> set_new)
      in participants_loop (connectedUsers st) (elems participantIds) [])"

subsection \<open>Authentication middleware and \<^verbatim>\<open>handleConnection\<close>\<close>

record handshake =
  auth_token :: "string option"
  query_token :: "string option"

text \<open>
  \<open>verifyToken\<close> stands for \<^verbatim>\<open>jwtUtils.verifyToken\<close>: it gives the \<^verbatim>\<open>userId\<close> of the
  decoded payload, or \<open>None\<close> where the source throws (bad signature, expired or
  blacklisted token). The middleware returns the message of the error it passes to
  \<^verbatim>\<open>next\<close>, or the user it attaches to the socket.
\<close>

definition setupMiddleware :: "(string \<Rightarrow> userId option) \<Rightarrow> database \<Rightarrow> handshake \<Rightarrow> string + (userId \<times> string)" where
  "setupMiddleware verifyToken d hs =
     (let token = (case present (auth_token hs) of Some t \<Rightarrow> Some t | None \<Rightarrow> query_token hs) in
      case present token of
        None \<Rightarrow> Inl ''Authentication token required''
      | Some t \<Rightarrow>
          (case verifyToken t of
             None \<Rightarrow> Inl ''Authentication failed''
           | Some uid \<Rightarrow>
               if \<not> connected d then Inl ''Authentication failed''
               else (case users d uid of
                       None \<Rightarrow> Inl ''User not found''
                     | Some uname \<Rightarrow> Inr (uid, uname))))"

definition handleConnection :: "state \<Rightarrow> socket \<Rightarrow> state" where
  "handleConnection st sock =
     (let st1 = st\<lparr>connectedUsers := (connectedUsers st)(userId sock \<mapsto>
                   \<lparr>socketId = sid sock, info_username = username sock, currentRoom = None\<rparr>)\<rparr>
      in socket_emit st1 sock (Connected (userId sock) (username sock)))"

text \<open>
  What the transport does with an incoming connection: it runs the middleware, refuses
  the connection with the error if there is one, and otherwise makes the socket live and
  fires \<^verbatim>\<open>connection\<close>, whose listener is \<open>handleConnection\<close>.
\<close>

definition io_connection :: "(string \<Rightarrow> userId option) \<Rightarrow> state \<Rightarrow> socketId \<Rightarrow> handshake \<Rightarrow> state" where
  "io_connection verifyToken st i hs =
     (case setupMiddleware verifyToken (db st) hs of
        Inl err \<Rightarrow> emit st [i] (ConnectError err)
      | Inr (uid, uname) \<Rightarrow>
          (let sock = \<lparr>sid = i, userId = uid, username = uname\<rparr>
           in handleConnection (st\<lparr>sockets := sockets st @ [sock]\<rparr>) sock))"

subsection \<open>\<^verbatim>\<open>leaveRoom\<close>\<close>

text \<open>
  The synchronous first part of \<^verbatim>\<open>leaveRoom\<close>: the transport room, the registry
  entry and the participant set.
\<close>

definition leave_sync :: "state \<Rightarrow> socket \<Rightarrow> roomId \<Rightarrow> state" where
  "leave_sync st sock rid =
     (let st1 = st\<lparr>joined := (joined st)(sid sock := joined st (sid sock) - {rid})\<rparr>;
          st2 = (case connectedUsers st1 (userId sock) of
                   Some info \<Rightarrow>
                     if currentRoom info = Some rid
                     then st1\<lparr>connectedUsers :=
                            (connectedUsers st1)(userId sock \<mapsto> info\<lparr>currentRoom := None\<rparr>)\<rparr>
                     else st1
                 | None \<Rightarrow> st1)
      in case roomParticipants st2 rid of
           Some ps \<Rightarrow>
             (let ps' = set_delete ps (userId sock) in
              if set_size ps' = 0
              then st2\<lparr>roomParticipants := (roomParticipants st2)(rid := None)\<rparr>
              else st2\<lparr>roomParticipants := (roomParticipants st2)(rid \<mapsto> ps')\<rparr>)
         | None \<Rightarrow> st2)"

text \<open>
  The rest of \<^verbatim>\<open>leaveRoom\<close>, from \<^verbatim>\<open>Room.findById\<close> on. The result is the state
  reached and the exception, if one was thrown.
\<close>

definition leave_notify :: "state \<Rightarrow> socket \<Rightarrow> roomId \<Rightarrow> state \<times> exn option" where
  "leave_notify st sock rid =
     (case Room_findById (db st) rid of
        Inl e \<Rightarrow> (st, Some e)
      | Inr None \<Rightarrow> (socket_emit st sock (RoomLeft rid), None)
      | Inr (Some r) \<Rightarrow>
          (case removeParticipant (db st) rid (userId sock) of
             Inl e \<Rightarrow> (st, Some e)
           | Inr d1 \<Rightarrow>
               (case createUserLeftNotification d1 rid (username sock) of
                  Inl e \<Rightarrow> (st\<lparr>db := d1\<rparr>, Some e)
                | Inr (d2, leaveMessage) \<Rightarrow>
                    (let st1 = st\<lparr>db := d2\<rparr>;
                         st2 = emit st1 (socket_to st1 sock rid)
                                 (UserLeft (userId sock) (username sock) leaveMessage);
                         ps = getRoomParticipantsList st2 rid;
                         st3 = emit st2 (socket_to st2 sock rid) (ParticipantsUpdate rid ps)
                     in (socket_emit st3 sock (RoomLeft rid), None)))))"

definition leaveRoom :: "state \<Rightarrow> socket \<Rightarrow> string option \<Rightarrow> state \<times> exn option" where
  "leaveRoom st sock r =
     (case present r of
        None \<Rightarrow> (st, None)
      | Some rid \<Rightarrow> leave_notify (leave_sync st sock rid) sock rid)"

definition handleLeaveRoom :: "state \<Rightarrow> socket \<Rightarrow> string option \<Rightarrow> state" where
  "handleLeaveRoom st sock data_roomId =
     (case leaveRoom st sock data_roomId of
        (st1, None) \<Rightarrow> st1
      | (st1, Some e) \<Rightarrow> socket_emit st1 sock (ErrorEv ''Failed to leave room'' []))"

subsection \<open>\<^verbatim>\<open>handleJoinRoom\<close>\<close>

text \<open>
  The call of \<^verbatim>\<open>leaveRoom\<close> that \<open>handleJoinRoom\<close> and \<open>handleDisconnect\<close> make when
  the registry entry of the user has a truthy \<^verbatim>\<open>currentRoom\<close>.
\<close>

definition leave_current :: "state \<Rightarrow> socket \<Rightarrow> state \<times> exn option" where
  "leave_current st sock =
     (case connectedUsers st (userId sock) of
        None \<Rightarrow> (st, None)
      | Some info \<Rightarrow>
          (case present (currentRoom info) of
             None \<Rightarrow> (st, None)
           | Some cur \<Rightarrow> leaveRoom st sock (Some cur)))"

text \<open>The synchronous part of the join: lines 148 to 159.\<close>

definition join_sync :: "state \<Rightarrow> socket \<Rightarrow> roomId \<Rightarrow> state" where
  "join_sync st sock rid =
     (let st1 = st\<lparr>joined := (joined st)(sid sock := insert rid (joined st (sid sock)))\<rparr>;
          st2 = (case connectedUsers st1 (userId sock) of
                   Some info \<Rightarrow>
                     st1\<lparr>connectedUsers :=
                       (connectedUsers st1)(userId sock \<mapsto> info\<lparr>currentRoom := Some rid\<rparr>)\<rparr>
                 | None \<Rightarrow> st1);
          ps = (case roomParticipants st2 rid of Some ps \<Rightarrow> ps | None \<Rightarrow> set_new)
      in st2\<lparr>roomParticipants := (roomParticipants st2)(rid \<mapsto> set_add ps (userId sock))\<rparr>)"

definition join_failed :: "state \<Rightarrow> socket \<Rightarrow> state" where
  "join_failed st sock = socket_emit st sock (ErrorEv ''Failed to join room'' [])"

text \<open>The persistence and the notifications of the join: lines 162 to 187.\<close>

definition join_notify :: "state \<Rightarrow> socket \<Rightarrow> roomId \<Rightarrow> room \<Rightarrow> state" where
  "join_notify st sock rid r =
     (case addParticipant (db st) rid (userId sock) of
        Inl e \<Rightarrow> join_failed st sock
      | Inr d1 \<Rightarrow>
          (case createUserJoinedNotification d1 rid (username sock) of
             Inl e \<Rightarrow> join_failed (st\<lparr>db := d1\<rparr>) sock
           | Inr (d2, joinMessage) \<Rightarrow>
               (let st1 = st\<lparr>db := d2\<rparr>;
                    st2 = emit st1 (socket_to st1 sock rid)
                            (UserJoined (userId sock) (username sock) joinMessage);
                    ps = getRoomParticipantsList st2 rid;
                    st3 = emit st2 (io_to st2 rid) (ParticipantsUpdate rid ps)
                in socket_emit st3 sock (RoomJoined rid (name r) ps))))"

definition handleJoinRoom :: "state \<Rightarrow> socket \<Rightarrow> string option \<Rightarrow> state" where
  "handleJoinRoom st sock data_roomId =
     (case present data_roomId of
        None \<Rightarrow> socket_emit st sock (ErrorEv ''Room ID is required'' [])
      | Some rid \<Rightarrow>
          (case Room_findById (db st) rid of
             Inl e \<Rightarrow> join_failed st sock
           | Inr None \<Rightarrow> socket_emit st sock (ErrorEv ''Room not found'' [])
           | Inr (Some r) \<Rightarrow>
               if \<not> isActive r then socket_emit st sock (ErrorEv ''Room is not active'' [])
               else
                 (case leave_current st sock of
                    (st1, Some e) \<Rightarrow> join_failed st1 sock
                  | (st1, None) \<Rightarrow> join_notify (join_sync st1 sock rid) sock rid r)))"

subsection \<open>\<^verbatim>\<open>handleSendMessage\<close>, \<^verbatim>\<open>handleGetRoomParticipants\<close>, \<^verbatim>\<open>handleDisconnect\<close>\<close>

definition handleSendMessage :: "state \<Rightarrow> socket \<Rightarrow> string option \<Rightarrow> string option \<Rightarrow> state" where
  "handleSendMessage st sock data_roomId data_content =
     (case (present data_roomId, present data_content) of
        (Some rid, Some c) \<Rightarrow>
          (case connectedUsers st (userId sock) of
             None \<Rightarrow> socket_emit st sock (ErrorEv ''You must be in the room to send messages'' [])
           | Some info \<Rightarrow>
               if currentRoom info \<noteq> Some rid
               then socket_emit st sock (ErrorEv ''You must be in the room to send messages'' [])
               else
                 (case Room_findById (db st) rid of
                    Inl e \<Rightarrow> socket_emit st sock (ErrorEv ''Failed to send message'' [])
                  | Inr None \<Rightarrow> socket_emit st sock (ErrorEv ''Room not found or inactive'' [])
                  | Inr (Some r) \<Rightarrow>
                      if \<not> isActive r
                      then socket_emit st sock (ErrorEv ''Room not found or inactive'' [])
                      else
                        (case Message_create (db st) rid (userId sock) (username sock) (js_trim c) None of
                           Inl (ValidationError details) \<Rightarrow>
                             socket_emit st sock (ErrorEv ''Message validation failed'' details)
                         | Inl _ \<Rightarrow> socket_emit st sock (ErrorEv ''Failed to send message'' [])
                         | Inr (d1, m) \<Rightarrow>
                             (let st1 = st\<lparr>db := d1\<rparr>
                              in emit st1 (io_to st1 rid) (NewMessage m)))))
      | _ \<Rightarrow> socket_emit st sock (ErrorEv ''Room ID and message content are required'' []))"

text \<open>
  \<open>handleSendMessage\<close> from line 294 on, that is, after the checks of lines 281 to 291
  have passed for the room id \<open>rid\<close> and the content \<open>c\<close> and the handler has waited
  for \<^verbatim>\<open>Room.findById\<close>. The room record is read from the state in which the block
  runs; the source reads it when the handler starts to wait, and the two agree when the
  database did not change in between.
\<close>

definition send_rest :: "state \<Rightarrow> socket \<Rightarrow> roomId \<Rightarrow> string \<Rightarrow> state" where
  "send_rest st sock rid c =
     (case Room_findById (db st) rid of
        Inl e \<Rightarrow> socket_emit st sock (ErrorEv ''Failed to send message'' [])
      | Inr None \<Rightarrow> socket_emit st sock (ErrorEv ''Room not found or inactive'' [])
      | Inr (Some r) \<Rightarrow>
          if \<not> isActive r
          then socket_emit st sock (ErrorEv ''Room not found or inactive'' [])
          else
            (case Message_create (db st) rid (userId sock) (username sock) (js_trim c) None of
               Inl (ValidationError details) \<Rightarrow>
                 socket_emit st sock (ErrorEv ''Message validation failed'' details)
             | Inl _ \<Rightarrow> socket_emit st sock (ErrorEv ''Failed to send message'' [])
             | Inr (d1, m) \<Rightarrow>
                 (let st1 = st\<lparr>db := d1\<rparr>
                  in emit st1 (io_to st1 rid) (NewMessage m))))"

definition handleGetRoomParticipants :: "state \<Rightarrow> socket \<Rightarrow> string option \<Rightarrow> state" where
  "handleGetRoomParticipants st sock data_roomId =
     (case present data_roomId of
        None \<Rightarrow> socket_emit st sock (ErrorEv ''Room ID is required'' [])
      | Some rid \<Rightarrow> socket_emit st sock (RoomParticipants rid (getRoomParticipantsList st rid)))"

text \<open>
  \<open>handleDisconnect\<close> has no \<^verbatim>\<open>try\<close>: when \<^verbatim>\<open>leaveRoom\<close> throws, the
  \<^verbatim>\<open>delete\<close> after it is not reached.
\<close>

definition handleDisconnect :: "state \<Rightarrow> socket \<Rightarrow> state" where
  "handleDisconnect st sock =
     (case leave_current st sock of
        (st1, Some e) \<Rightarrow> st1
      | (st1, None) \<Rightarrow> st1\<lparr>connectedUsers := (connectedUsers st1)(userId sock := None)\<rparr>)"

text \<open>
  What the transport does when a socket closes: the socket is taken out of its rooms and
  of the live sockets, then \<^verbatim>\<open>disconnect\<close> fires, whose listener is
  \<open>handleDisconnect\<close>.
\<close>

definition unplug :: "state \<Rightarrow> socket \<Rightarrow> state" where
  "unplug st sock = st\<lparr>sockets := filter (\<lambda>x. sid x \<noteq> sid sock) (sockets st),
                         joined := (joined st)(sid sock := {})\<rparr>"

definition io_disconnect :: "state \<Rightarrow> socket \<Rightarrow> state" where
  "io_disconnect st sock = handleDisconnect (unplug st sock) sock"

section \<open>Notions used by the properties\<close>

subsection \<open>Reading the state\<close>

text \<open>
  The user ids in the participant set of a room (empty for a room with no entry), and
  the current room of the registry entry of a user (\<open>None\<close> for a user with no entry or
  with \<^verbatim>\<open>currentRoom\<close> null).
\<close>

definition members :: "state \<Rightarrow> roomId \<Rightarrow> userId set" where
  "members st rid = (case roomParticipants st rid of Some ps \<Rightarrow> set (elems ps) | None \<Rightarrow> {})"

definition room_of :: "state \<Rightarrow> userId \<Rightarrow> roomId option" where
  "room_of st u = (case connectedUsers st u of Some info \<Rightarrow> currentRoom info | None \<Rightarrow> None)"


text \<open>
  \<open>listed cu us p\<close>: the entry \<open>p\<close> is the one that the loop of
  \<open>getRoomParticipantsList\<close> makes for a user id of \<open>us\<close> with a registry entry.
\<close>

definition listed :: "(userId \<rightharpoonup> userInfo) \<Rightarrow> userId list \<Rightarrow> participant \<Rightarrow> bool" where
  "listed cu us p =
     (p_userId p \<in> set us \<and> isOnline p \<and>
      (case cu (p_userId p) of None \<Rightarrow> False | Some info \<Rightarrow> p_username p = info_username info))"

text \<open>
  No room is mapped to an empty participant set.
\<close>

definition no_empty_set :: "state \<Rightarrow> bool" where
  "no_empty_set st \<longleftrightarrow> (\<forall>r ps. roomParticipants st r = Some ps \<longrightarrow> elems ps \<noteq> [])"

text \<open>
  Two states with the same registry, participant sets, live sockets and transport rooms;
  they may differ in the database and in the emitted events.
\<close>

definition same_mem :: "state \<Rightarrow> state \<Rightarrow> bool" where
  "same_mem st st' \<longleftrightarrow>
     connectedUsers st' = connectedUsers st \<and> roomParticipants st' = roomParticipants st \<and>
     sockets st' = sockets st \<and> joined st' = joined st"

text \<open>
  The events emitted between two states, the number of events sent to a socket, and
  the number of events of one kind sent to a socket.
\<close>

definition new_events :: "state \<Rightarrow> state \<Rightarrow> (socketId \<times> event) list" where
  "new_events st st' = drop (length (outbox st)) (outbox st')"






subsection \<open>Identities, messages and event lists\<close>

text \<open>
  What \<^verbatim>\<open>User.create\<close> guarantees of the user a socket is authenticated as and that
  the handlers rely on: the id is a non-empty string (a UUID) and the username has 3 to
  30 characters (\<^verbatim>\<open>User.validateUsername\<close>).
\<close>

definition valid_user :: "socket \<Rightarrow> bool" where
  "valid_user sock \<longleftrightarrow>
     userId sock \<noteq> [] \<and> 3 \<le> length (username sock) \<and> length (username sock) \<le> 30"

text \<open>
  The records that \<open>Message_create\<close> stores: for a chat message of a socket, and for
  the two notifications.
\<close>

definition chat_message :: "roomId \<Rightarrow> socket \<Rightarrow> string \<Rightarrow> message" where
  "chat_message rid sock txt =
     \<lparr>roomId = rid, senderId = userId sock, senderUsername = username sock,
      content = js_trim txt, messageType = ''message''\<rparr>"

definition left_message :: "roomId \<Rightarrow> string \<Rightarrow> message" where
  "left_message rid uname =
     \<lparr>roomId = rid, senderId = ''system'', senderUsername = ''System'',
      content = js_trim (uname @ '' left the room''), messageType = ''notification''\<rparr>"

definition joined_message :: "roomId \<Rightarrow> string \<Rightarrow> message" where
  "joined_message rid uname =
     \<lparr>roomId = rid, senderId = ''system'', senderUsername = ''System'',
      content = js_trim (uname @ '' joined the room''), messageType = ''notification''\<rparr>"

text \<open>
  The notifications of \<open>leaveRoom\<close> (lines 249 to 260) and of \<open>handleJoinRoom\<close>
  (lines 168 to 179) as lists of addressed events.
\<close>

definition leave_events :: "state \<Rightarrow> socket \<Rightarrow> roomId \<Rightarrow> (socketId \<times> event) list" where
  "leave_events st sock rid =
     map (\<lambda>i. (i, UserLeft (userId sock) (username sock) (left_message rid (username sock))))
       (socket_to st sock rid) @
     map (\<lambda>i. (i, ParticipantsUpdate rid (getRoomParticipantsList st rid)))
       (socket_to st sock rid)"


subsection \<open>The conditions of the claims\<close>

text \<open>
  The token that the middleware takes from the handshake, and the three reasons for
  which a connection is to be refused: no token, a token that does not verify, a user
  id with no user record.
\<close>

definition token_of :: "handshake \<Rightarrow> string option" where
  "token_of hs = (case present (auth_token hs) of Some t \<Rightarrow> Some t | None \<Rightarrow> query_token hs)"

definition auth_rejected :: "(string \<Rightarrow> userId option) \<Rightarrow> database \<Rightarrow> handshake \<Rightarrow> bool" where
  "auth_rejected verifyToken d hs =
     (case present (token_of hs) of
        None \<Rightarrow> True
      | Some t \<Rightarrow> (case verifyToken t of None \<Rightarrow> True | Some uid \<Rightarrow> users d uid = None))"

text \<open>
  A valid \<^verbatim>\<open>send-message\<close> request: room id and content present, the current room
  of the sender equal to the room id, the database connected, the room stored and
  active, the sender id and username non-empty, and the trimmed content of 1 to 1000
  characters.
\<close>

definition send_accepted :: "state \<Rightarrow> socket \<Rightarrow> string option \<Rightarrow> string option \<Rightarrow> bool" where
  "send_accepted st sock r c =
     (case (present r, present c) of
        (Some rid, Some txt) \<Rightarrow>
          room_of st (userId sock) = Some rid \<and>
          connected (db st) \<and>
          (case rooms (db st) rid of Some ro \<Rightarrow> isActive ro | None \<Rightarrow> False) \<and>
          userId sock \<noteq> [] \<and> username sock \<noteq> [] \<and>
          1 \<le> length (js_trim txt) \<and> length (js_trim txt) \<le> 1000
      | _ \<Rightarrow> False)"

subsection \<open>Runs that handle one event at a time\<close>

text \<open>
  The state of a fresh \<^verbatim>\<open>SocketHandler\<close> over a database \<open>d\<close>.
\<close>

definition initial :: "database \<Rightarrow> state" where
  "initial d = \<lparr>connectedUsers = Map.empty, roomParticipants = Map.empty, sockets = [],
                joined = (\<lambda>_. {}), db = d, outbox = []\<rparr>"

text \<open>
  The states reached from a fresh handler when the server handles one event at a time,
  each handler running to completion before the next event is taken up: incoming
  connections, the four client events, disconnects of live sockets, and, between two
  events, any change of the database made by the rest of the server (\<open>store\<close>: rooms
  created, deactivated or deleted by the REST controllers, the database disconnected at
  shutdown). The rule \<open>connect\<close> admits a connection only when its socket id is new and
  when the user it authenticates as has no live connection.

  So \<open>sequential1\<close> holds of the runs in which no two handlers overlap and no user has
  two live connections at once. It does not hold of every state that the code reaches: a
  handler of the source gives up control at its awaits (lines 130, 144, 162, 241, 294
  and 301), and two requests received back to back are handled in overlapping blocks. The
  state \<open>two_tabs_4\<close> below, and every state with the registry, participant sets and
  transport rooms of \<open>overlap_3\<close>, are reached by the code and are outside
  \<open>sequential1\<close>.
\<close>

inductive sequential1 :: "state \<Rightarrow> bool" where
  start: "sequential1 (initial d)"
| connect:
    "sequential1 st \<Longrightarrow> i \<notin> sid ` set (sockets st) \<Longrightarrow>
     (\<And>uid uname. setupMiddleware verifyToken (db st) hs = Inr (uid, uname) \<Longrightarrow>
        uid \<notin> userId ` set (sockets st)) \<Longrightarrow>
     sequential1 (io_connection verifyToken st i hs)"
| join: "sequential1 st \<Longrightarrow> sock \<in> set (sockets st) \<Longrightarrow> sequential1 (handleJoinRoom st sock r)"
| leave: "sequential1 st \<Longrightarrow> sock \<in> set (sockets st) \<Longrightarrow> sequential1 (handleLeaveRoom st sock r)"
| send:
    "sequential1 st \<Longrightarrow> sock \<in> set (sockets st) \<Longrightarrow> sequential1 (handleSendMessage st sock r c)"
| list:
    "sequential1 st \<Longrightarrow> sock \<in> set (sockets st) \<Longrightarrow>
     sequential1 (handleGetRoomParticipants st sock r)"
| disconnect: "sequential1 st \<Longrightarrow> sock \<in> set (sockets st) \<Longrightarrow> sequential1 (io_disconnect st sock)"
| store: "sequential1 st \<Longrightarrow> sequential1 (st\<lparr>db := d\<rparr>)"

text \<open>
  The properties that hold in these states: socket ids and users of live sockets are
  distinct; every live socket has a registry entry; a current room is a non-empty room id
  and belongs to a user with a live socket; the participant sets mirror the current
  rooms; the transport rooms of a live socket are its current room, and a socket that is
  not live is in no transport room.
\<close>

definition consistent :: "state \<Rightarrow> bool" where
  "consistent st \<longleftrightarrow>
     distinct (map sid (sockets st)) \<and>
     distinct (map userId (sockets st)) \<and>
     (\<forall>x \<in> set (sockets st). connectedUsers st (userId x) \<noteq> None) \<and>
     (\<forall>u r. room_of st u = Some r \<longrightarrow> r \<noteq> [] \<and> u \<in> userId ` set (sockets st)) \<and>
     (\<forall>u r. u \<in> members st r \<longleftrightarrow> room_of st u = Some r) \<and>
     (\<forall>x \<in> set (sockets st). joined st (sid x) = set_option (room_of st (userId x))) \<and>
     (\<forall>i. i \<notin> sid ` set (sockets st) \<longrightarrow> joined st i = {})"

subsection \<open>Scenario states\<close>

text \<open>
  A database with two users and the room \<open>A\<close>; a second room \<open>B\<close> that can be added
  to a database; a token verifier that knows one token per user; handshakes; and the
  sockets \<open>s1\<close>, \<open>s2\<close> (both of user \<open>u1\<close>) and \<open>s3\<close> (of user \<open>u2\<close>).
\<close>

definition db0 :: database where
  "db0 = \<lparr>connected = True, users = Map.empty, rooms = Map.empty, messages = []\<rparr>"

definition room_general :: room where
  "room_general = \<lparr>name = ''General'', createdBy = ''system'', participants = [], isActive = True\<rparr>"

definition room_random :: room where
  "room_random = \<lparr>name = ''Random'', createdBy = ''system'', participants = [], isActive = True\<rparr>"

definition db_general :: database where
  "db_general = \<lparr>connected = True, users = [''u1'' \<mapsto> ''alice'', ''u2'' \<mapsto> ''bob''],
                  rooms = [''A'' \<mapsto> room_general], messages = []\<rparr>"

definition second_room :: "state \<Rightarrow> state" where
  "second_room st = st\<lparr>db := (db st)\<lparr>rooms := (rooms (db st))(''B'' \<mapsto> room_random)\<rparr>\<rparr>"

definition verify_demo :: "string \<Rightarrow> userId option" where
  "verify_demo t = (if t = ''token-alice'' then Some ''u1''
                    else if t = ''token-bob'' then Some ''u2'' else None)"

definition hs_alice :: handshake where
  "hs_alice = \<lparr>auth_token = Some ''token-alice'', query_token = None\<rparr>"


definition hs_none :: handshake where
  "hs_none = \<lparr>auth_token = None, query_token = Some ''''\<rparr>"

definition hs_forged :: handshake where
  "hs_forged = \<lparr>auth_token = None, query_token = Some ''invalid.token.here''\<rparr>"

definition tab1 :: socket where "tab1 = \<lparr>sid = ''s1'', userId = ''u1'', username = ''alice''\<rparr>"

definition tab2 :: socket where "tab2 = \<lparr>sid = ''s2'', userId = ''u1'', username = ''alice''\<rparr>"


text \<open>
  A room whose participant set holds a user id (\<open>u2\<close>) with no registry entry.
\<close>

definition st_stale :: state where
  "st_stale =
     \<lparr>connectedUsers =
        [''u1'' \<mapsto> \<lparr>socketId = ''s1'', info_username = ''alice'', currentRoom = Some ''r''\<rparr>],
      roomParticipants = [''r'' \<mapsto> set_add (set_add set_new ''u2'') ''u1''],
      sockets = [\<lparr>sid = ''s1'', userId = ''u1'', username = ''alice''\<rparr>],
      joined = (\<lambda>_. {})(''s1'' := {''r''}),
      db = db0,
      outbox = []\<rparr>"

text \<open>
  One user, two connections: \<open>s1\<close> connects and joins \<open>A\<close>, \<open>s2\<close> connects, \<open>s1\<close>
  disconnects.
\<close>

definition two_tabs_1 :: state where
  "two_tabs_1 = io_connection verify_demo (initial db_general) ''s1'' hs_alice"

definition two_tabs_2 :: state where
  "two_tabs_2 = handleJoinRoom two_tabs_1 tab1 (Some ''A'')"

definition two_tabs_3 :: state where
  "two_tabs_3 = io_connection verify_demo two_tabs_2 ''s2'' hs_alice"

definition two_tabs_4 :: state where
  "two_tabs_4 = io_disconnect two_tabs_3 tab1"



text \<open>
  The state \<open>two_tabs_2\<close> (user \<open>u1\<close> alone in \<open>A\<close>) after room \<open>A\<close> was deactivated.
\<close>

definition st_inactive :: state where
  "st_inactive = two_tabs_2\<lparr>db := (db two_tabs_2)\<lparr>rooms := [''A'' \<mapsto> room_general\<lparr>isActive := False\<rparr>]\<rparr>\<rparr>"






text \<open>
  The state \<open>two_tabs_2\<close> with the rooms \<open>B\<close> and \<open>C\<close> stored as well: the user \<open>u1\<close>
  has the one connection \<open>s1\<close> and is alone in room \<open>A\<close>.
\<close>

definition room_games :: room where
  "room_games = \<lparr>name = ''Games'', createdBy = ''system'', participants = [], isActive = True\<rparr>"

definition third_room :: "state \<Rightarrow> state" where
  "third_room st = st\<lparr>db := (db st)\<lparr>rooms := (rooms (db st))(''C'' \<mapsto> room_games)\<rparr>\<rparr>"

definition three_rooms :: state where
  "three_rooms = third_room (second_room two_tabs_2)"

text \<open>
  Two overlapping handlers of one connection. In \<open>three_rooms\<close> the socket \<open>s1\<close> sends
  \<^verbatim>\<open>join-room\<close> for \<open>B\<close> and then, before the first request is answered, a second
  request. Both handlers start and wait: the join at line 130, the second request at its
  first await. The join for \<open>B\<close> resumes first. It finds the current room \<open>A\<close> and
  calls \<^verbatim>\<open>leaveRoom\<close>, whose lines 222 to 238 run at once and which then waits at
  line 241: this is \<open>overlap_1\<close>. Now the second handler resumes.
  \<^item> If the second request is \<^verbatim>\<open>join-room\<close> for \<open>C\<close>: the registry entry has no
    current room any more, so the handler calls no \<^verbatim>\<open>leaveRoom\<close> and runs lines 148
    to 159 for \<open>C\<close> (\<open>overlap_2\<close>). Then the join for \<open>B\<close> resumes and, when its
    \<^verbatim>\<open>leaveRoom\<close> has returned, runs lines 148 to 159 for \<open>B\<close> (\<open>overlap_3\<close>).
    The registry, the participant sets and the transport rooms are written in these
    three blocks only; the database calls and the emissions of the two handlers, which
    change none of the three, are left out of \<open>overlap_2\<close> and \<open>overlap_3\<close>.
  \<^item> If the second request is \<^verbatim>\<open>send-message\<close> for \<open>A\<close>: its checks of lines 281
    to 291 passed when it started, in \<open>three_rooms\<close>; it resumes in \<open>overlap_1\<close>, whose
    database is that of \<open>three_rooms\<close>, and runs \<open>send_rest\<close> there.
\<close>

definition overlap_1 :: state where
  "overlap_1 = leave_sync three_rooms tab1 ''A''"

definition overlap_2 :: state where
  "overlap_2 = join_sync overlap_1 tab1 ''C''"

definition overlap_3 :: state where
  "overlap_3 = join_sync overlap_2 tab1 ''B''"






text \<open>
  The state \<open>two_tabs_2\<close> after the database was disconnected, as
  \<^verbatim>\<open>server.js\<close> does at shutdown before it closes the sockets.
\<close>

definition store_down :: state where
  "store_down = two_tabs_2\<lparr>db := (db two_tabs_2)\<lparr>connected := False\<rparr>\<rparr>"

section \<open>Properties\<close>

subsection \<open>The participant list of a room\<close>

lemma elems_distinct: "distinct (elems s)"
  using elems [of s] by simp

lemma listed_Nil: "listed cu [] p = False"
  by (simp add: listed_def)

lemma listed_Cons_None: "cu u = None \<Longrightarrow> listed cu (u # us) p = listed cu us p"
  by (auto simp: listed_def)

lemma listed_Cons_Some:
  "cu u = Some info \<Longrightarrow> u \<notin> set us \<Longrightarrow>
   listed cu (u # us) p = (p = Participant u (info_username info) True \<or> listed cu us p)"
  by (cases p) (auto simp: listed_def)

lemma listed_head_not_tail: "u \<notin> set us \<Longrightarrow> \<not> listed cu us (Participant u n b)"
  by (simp add: listed_def)

lemma count_participants_loop:
  "distinct us \<Longrightarrow>
   count_list (participants_loop cu us acc) p = count_list acc p + (if listed cu us p then 1 else 0)"
proof (induction us arbitrary: acc)
  case Nil
  show ?case by (simp add: listed_Nil)
next
  case (Cons u us)
  from Cons.prems have d: "distinct us" and n: "u \<notin> set us" by simp_all
  show ?case
  proof (cases "cu u")
    case None
    then show ?thesis using Cons.IH [OF d] by (simp add: listed_Cons_None)
  next
    case (Some info)
    let ?e = "Participant u (info_username info) True"
    have "count_list (participants_loop cu (u # us) acc) p
            = count_list (acc @ [?e]) p + (if listed cu us p then 1 else 0)"
      using Some Cons.IH [OF d] by simp
    moreover have "listed cu (u # us) p = (p = ?e \<or> listed cu us p)"
      using Some n by (rule listed_Cons_Some)
    moreover have "p = ?e \<Longrightarrow> \<not> listed cu us p"
      using listed_head_not_tail [OF n] by simp
    ultimately show ?thesis by auto
  qed
qed

lemma getRoomParticipantsList_count:
  "count_list (getRoomParticipantsList st rid) p =
     (if listed (connectedUsers st)
           (case roomParticipants st rid of Some ps \<Rightarrow> elems ps | None \<Rightarrow> []) p then 1 else 0)"
  by (cases "roomParticipants st rid")
     (simp_all add: getRoomParticipantsList_def count_participants_loop elems_distinct
        set_new.rep_eq listed_Nil)

text \<open>
  C8. For every state and room id, the list that \<open>getRoomParticipantsList\<close> returns
  holds the entry \<open>{userId = u, username = n, isOnline = b}\<close> exactly once when \<open>u\<close> is in
  the participant set of the room, \<open>b\<close> is true and \<open>n\<close> is the username of the registry
  entry of \<open>u\<close>, and not at all otherwise. So a user id of the set with no registry entry
  has no entry in the result. The function is total: it has no error result.
\<close>

theorem getRoomParticipantsList_exact:
  "count_list (getRoomParticipantsList st rid) (Participant u n b) =
     (if u \<in> members st rid \<and> b \<and>
         (\<exists>info. connectedUsers st u = Some info \<and> info_username info = n)
      then 1 else 0)"
proof -
  have "listed (connectedUsers st)
          (case roomParticipants st rid of Some ps \<Rightarrow> elems ps | None \<Rightarrow> []) (Participant u n b)
        = (u \<in> members st rid \<and> b \<and>
           (\<exists>info. connectedUsers st u = Some info \<and> info_username info = n))"
    by (auto simp: listed_def members_def split: option.splits)
  then show ?thesis
    by (simp only: getRoomParticipantsList_count)
qed

theorem getRoomParticipantsList_exact_witness:
  "count_list (getRoomParticipantsList st_stale ''r'') (Participant ''u1'' ''alice'' True) = 1 \<and>
   count_list (getRoomParticipantsList st_stale ''r'') (Participant ''u2'' ''bob'' True) = 0"
  using getRoomParticipantsList_exact [of st_stale "''r''" "''u1''" "''alice''" True]
        getRoomParticipantsList_exact [of st_stale "''r''" "''u2''" "''bob''" True]
  by (simp add: st_stale_def members_def set_add.rep_eq set_new.rep_eq)

subsection \<open>What emitting and persisting leave unchanged\<close>

lemma mem_emit [simp]:
  "connectedUsers (emit st rs ev) = connectedUsers st"
  "roomParticipants (emit st rs ev) = roomParticipants st"
  "sockets (emit st rs ev) = sockets st"
  "joined (emit st rs ev) = joined st"
  "db (emit st rs ev) = db st"
  "outbox (emit st rs ev) = outbox st @ map (\<lambda>i. (i, ev)) rs"
  by (simp_all add: emit_def)

lemma mem_socket_emit [simp]:
  "connectedUsers (socket_emit st sock ev) = connectedUsers st"
  "roomParticipants (socket_emit st sock ev) = roomParticipants st"
  "sockets (socket_emit st sock ev) = sockets st"
  "joined (socket_emit st sock ev) = joined st"
  "db (socket_emit st sock ev) = db st"
  "outbox (socket_emit st sock ev) = outbox st @ [(sid sock, ev)]"
  by (simp_all add: socket_emit_def)

lemma same_mem_refl [simp]: "same_mem st st"
  by (simp add: same_mem_def)

lemma same_mem_emit [simp]: "same_mem st (emit st' rs ev) = same_mem st st'"
  by (simp add: same_mem_def)

lemma same_mem_socket_emit [simp]: "same_mem st (socket_emit st' sock ev) = same_mem st st'"
  by (simp add: same_mem_def)

lemma same_mem_db [simp]: "same_mem st (st'\<lparr>db := d\<rparr>) = same_mem st st'"
  by (simp add: same_mem_def)

lemma same_mem_leave_notify: "same_mem st (fst (leave_notify st sock rid))"
  by (simp add: leave_notify_def Let_def split: sum.splits option.splits prod.splits)

lemma same_mem_join_notify: "same_mem st (join_notify st sock rid r)"
  by (simp add: join_notify_def join_failed_def Let_def split: sum.splits option.splits prod.splits)

lemma same_mem_join_failed [simp]: "same_mem st (join_failed st' sock) = same_mem st st'"
  by (simp add: join_failed_def)

lemma members_cong: "same_mem st st' \<Longrightarrow> members st' = members st"
  by (simp add: same_mem_def members_def fun_eq_iff)

lemma room_of_cong: "same_mem st st' \<Longrightarrow> room_of st' = room_of st"
  by (simp add: same_mem_def room_of_def fun_eq_iff)

lemma consistent_cong:
  assumes "same_mem st st'" and "consistent st"
  shows "consistent st'"
proof -
  have m: "members st' = members st" and r: "room_of st' = room_of st"
    using assms(1) by (simp_all add: members_cong room_of_cong)
  have s: "sockets st' = sockets st" "joined st' = joined st"
    "connectedUsers st' = connectedUsers st"
    using assms(1) by (simp_all add: same_mem_def)
  show ?thesis
    using assms(2) unfolding consistent_def m r s .
qed

subsection \<open>The synchronous parts of leave and join\<close>

lemma set_elems_delete: "set (elems (set_delete ps u)) = set (elems ps) - {u}"
  by (simp add: set_delete.rep_eq)

lemma set_elems_add: "set (elems (set_add ps u)) = insert u (set (elems ps))"
  by (auto simp: set_add.rep_eq)

lemma set_size_0: "set_size ps = 0 \<longleftrightarrow> set (elems ps) = {}"
  by (simp add: set_size_def)

lemma leave_sync_sockets [simp]: "sockets (leave_sync st sock rid) = sockets st"
  by (simp add: leave_sync_def Let_def split: option.splits)

lemma leave_sync_db [simp]: "db (leave_sync st sock rid) = db st"
  by (simp add: leave_sync_def Let_def split: option.splits)

lemma leave_sync_outbox [simp]: "outbox (leave_sync st sock rid) = outbox st"
  by (simp add: leave_sync_def Let_def split: option.splits)

lemma leave_sync_joined:
  "joined (leave_sync st sock rid) = (joined st)(sid sock := joined st (sid sock) - {rid})"
  by (simp add: leave_sync_def Let_def split: option.splits)

lemma leave_sync_connectedUsers:
  "connectedUsers (leave_sync st sock rid) =
     (case connectedUsers st (userId sock) of
        Some info \<Rightarrow>
          if currentRoom info = Some rid
          then (connectedUsers st)(userId sock \<mapsto> info\<lparr>currentRoom := None\<rparr>)
          else connectedUsers st
      | None \<Rightarrow> connectedUsers st)"
  by (simp add: leave_sync_def Let_def split: option.splits)

lemma leave_sync_room_of:
  "room_of (leave_sync st sock rid) u =
     (if u = userId sock \<and> room_of st u = Some rid then None else room_of st u)"
  by (simp add: room_of_def leave_sync_connectedUsers split: option.splits)

lemma leave_sync_registered:
  "(connectedUsers (leave_sync st sock rid) u = None) = (connectedUsers st u = None)"
  by (simp add: leave_sync_connectedUsers split: option.splits)

lemma leave_sync_roomParticipants:
  "roomParticipants (leave_sync st sock rid) =
     (case roomParticipants st rid of
        Some ps \<Rightarrow>
          if set_size (set_delete ps (userId sock)) = 0
          then (roomParticipants st)(rid := None)
          else (roomParticipants st)(rid \<mapsto> set_delete ps (userId sock))
      | None \<Rightarrow> roomParticipants st)"
  by (simp add: leave_sync_def Let_def split: option.splits)

lemma leave_sync_members:
  "members (leave_sync st sock rid) r =
     (if r = rid then members st rid - {userId sock} else members st r)"
  by (simp add: members_def leave_sync_roomParticipants set_elems_delete set_size_0
       split: option.splits)

lemma join_sync_sockets [simp]: "sockets (join_sync st sock rid) = sockets st"
  by (simp add: join_sync_def Let_def split: option.splits)

lemma join_sync_db [simp]: "db (join_sync st sock rid) = db st"
  by (simp add: join_sync_def Let_def split: option.splits)

lemma join_sync_outbox [simp]: "outbox (join_sync st sock rid) = outbox st"
  by (simp add: join_sync_def Let_def split: option.splits)

lemma join_sync_joined:
  "joined (join_sync st sock rid) = (joined st)(sid sock := insert rid (joined st (sid sock)))"
  by (simp add: join_sync_def Let_def split: option.splits)

lemma join_sync_connectedUsers:
  "connectedUsers (join_sync st sock rid) =
     (case connectedUsers st (userId sock) of
        Some info \<Rightarrow> (connectedUsers st)(userId sock \<mapsto> info\<lparr>currentRoom := Some rid\<rparr>)
      | None \<Rightarrow> connectedUsers st)"
  by (simp add: join_sync_def Let_def split: option.splits)

lemma join_sync_room_of:
  "room_of (join_sync st sock rid) u =
     (if u = userId sock \<and> connectedUsers st u \<noteq> None then Some rid else room_of st u)"
  by (auto simp: room_of_def join_sync_connectedUsers split: option.splits)

lemma join_sync_registered:
  "(connectedUsers (join_sync st sock rid) u = None) = (connectedUsers st u = None)"
  by (simp add: join_sync_connectedUsers split: option.splits)

lemma join_sync_roomParticipants:
  "roomParticipants (join_sync st sock rid) =
     (roomParticipants st)(rid \<mapsto>
        set_add (case roomParticipants st rid of Some ps \<Rightarrow> ps | None \<Rightarrow> set_new) (userId sock))"
  by (simp add: join_sync_def Let_def split: option.splits)

lemma join_sync_members:
  "members (join_sync st sock rid) r =
     (if r = rid then insert (userId sock) (members st rid) else members st r)"
  by (simp add: members_def join_sync_roomParticipants set_elems_add set_new.rep_eq
       split: option.splits)

subsection \<open>The invariant of the runs that handle one event at a time\<close>

lemma distinct_map_eq:
  "distinct (map f xs) \<Longrightarrow> x \<in> set xs \<Longrightarrow> y \<in> set xs \<Longrightarrow> f x = f y \<Longrightarrow> x = y"
  by (auto simp: distinct_map dest: inj_onD)

lemma consistentD:
  assumes "consistent st"
  shows "distinct (map sid (sockets st))"
    and "distinct (map userId (sockets st))"
    and "\<And>x. x \<in> set (sockets st) \<Longrightarrow> connectedUsers st (userId x) \<noteq> None"
    and "\<And>u r. room_of st u = Some r \<Longrightarrow> r \<noteq> []"
    and "\<And>u r. room_of st u = Some r \<Longrightarrow> u \<in> userId ` set (sockets st)"
    and "\<And>u r. (u \<in> members st r) = (room_of st u = Some r)"
    and "\<And>x. x \<in> set (sockets st) \<Longrightarrow> joined st (sid x) = set_option (room_of st (userId x))"
    and "\<And>i. i \<notin> sid ` set (sockets st) \<Longrightarrow> joined st i = {}"
  using assms unfolding consistent_def by blast+

lemma consistentI:
  assumes "distinct (map sid (sockets st))"
    and "distinct (map userId (sockets st))"
    and "\<And>x. x \<in> set (sockets st) \<Longrightarrow> connectedUsers st (userId x) \<noteq> None"
    and "\<And>u r. room_of st u = Some r \<Longrightarrow> r \<noteq> []"
    and "\<And>u r. room_of st u = Some r \<Longrightarrow> u \<in> userId ` set (sockets st)"
    and "\<And>u r. (u \<in> members st r) = (room_of st u = Some r)"
    and "\<And>x. x \<in> set (sockets st) \<Longrightarrow> joined st (sid x) = set_option (room_of st (userId x))"
    and "\<And>i. i \<notin> sid ` set (sockets st) \<Longrightarrow> joined st i = {}"
  shows "consistent st"
  using assms unfolding consistent_def by blast

lemma consistent_leave_sync:
  assumes c: "consistent st" and live: "sock \<in> set (sockets st)"
  shows "consistent (leave_sync st sock rid)"
proof (rule consistentI)
  note d = consistentD [OF c]
  show "distinct (map sid (sockets (leave_sync st sock rid)))" using d(1) by simp
  show "distinct (map userId (sockets (leave_sync st sock rid)))" using d(2) by simp
  show "connectedUsers (leave_sync st sock rid) (userId x) \<noteq> None"
    if "x \<in> set (sockets (leave_sync st sock rid))" for x
    using that d(3) by (simp add: leave_sync_registered)
  show "r \<noteq> []" if "room_of (leave_sync st sock rid) u = Some r" for u r
    using that d(4) [of u r] by (simp add: leave_sync_room_of split: if_splits)
  show "u \<in> userId ` set (sockets (leave_sync st sock rid))"
    if "room_of (leave_sync st sock rid) u = Some r" for u r
    using that d(5) [of u r] by (simp add: leave_sync_room_of split: if_splits)
  show "(u \<in> members (leave_sync st sock rid) r) = (room_of (leave_sync st sock rid) u = Some r)"
    for u r
    using d(6) [of u r] d(6) [of u rid]
    by (auto simp: leave_sync_members leave_sync_room_of)
  show "joined (leave_sync st sock rid) (sid x) =
          set_option (room_of (leave_sync st sock rid) (userId x))"
    if "x \<in> set (sockets (leave_sync st sock rid))" for x
  proof (cases "x = sock")
    case True
    then show ?thesis using d(7) [OF live]
      by (auto simp: leave_sync_joined leave_sync_room_of)
  next
    case False
    from that have x: "x \<in> set (sockets st)" by simp
    have "sid x \<noteq> sid sock" using distinct_map_eq [OF d(1) x live] False by blast
    moreover have "userId x \<noteq> userId sock" using distinct_map_eq [OF d(2) x live] False by blast
    ultimately show ?thesis using d(7) [OF x]
      by (simp add: leave_sync_joined leave_sync_room_of)
  qed
  show "joined (leave_sync st sock rid) i = {}"
    if "i \<notin> sid ` set (sockets (leave_sync st sock rid))" for i
    using that d(8) [of i] live by (auto simp: leave_sync_joined)
qed

lemma consistent_join_sync:
  assumes c: "consistent st" and live: "sock \<in> set (sockets st)"
    and free: "room_of st (userId sock) = None" and rid: "rid \<noteq> []"
  shows "consistent (join_sync st sock rid)"
proof (rule consistentI)
  note d = consistentD [OF c]
  have reg: "connectedUsers st (userId sock) \<noteq> None" using d(3) [OF live] .
  show "distinct (map sid (sockets (join_sync st sock rid)))" using d(1) by simp
  show "distinct (map userId (sockets (join_sync st sock rid)))" using d(2) by simp
  show "connectedUsers (join_sync st sock rid) (userId x) \<noteq> None"
    if "x \<in> set (sockets (join_sync st sock rid))" for x
    using that d(3) by (simp add: join_sync_registered)
  show "r \<noteq> []" if "room_of (join_sync st sock rid) u = Some r" for u r
    using that d(4) [of u r] rid by (simp add: join_sync_room_of split: if_splits)
  show "u \<in> userId ` set (sockets (join_sync st sock rid))"
    if "room_of (join_sync st sock rid) u = Some r" for u r
    using that d(5) [of u r] live by (auto simp: join_sync_room_of split: if_splits)
  show "(u \<in> members (join_sync st sock rid) r) = (room_of (join_sync st sock rid) u = Some r)"
    for u r
    using d(6) [of u r] d(6) [of u rid] reg free
    by (auto simp: join_sync_members join_sync_room_of)
  show "joined (join_sync st sock rid) (sid x) =
          set_option (room_of (join_sync st sock rid) (userId x))"
    if "x \<in> set (sockets (join_sync st sock rid))" for x
  proof (cases "x = sock")
    case True
    then show ?thesis using d(7) [OF live] reg free
      by (auto simp: join_sync_joined join_sync_room_of)
  next
    case False
    from that have x: "x \<in> set (sockets st)" by simp
    have "sid x \<noteq> sid sock" using distinct_map_eq [OF d(1) x live] False by blast
    moreover have "userId x \<noteq> userId sock" using distinct_map_eq [OF d(2) x live] False by blast
    ultimately show ?thesis using d(7) [OF x]
      by (simp add: join_sync_joined join_sync_room_of)
  qed
  show "joined (join_sync st sock rid) i = {}"
    if "i \<notin> sid ` set (sockets (join_sync st sock rid))" for i
    using that d(8) [of i] live by (auto simp: join_sync_joined)
qed

lemma present_Some: "present v = Some x \<longleftrightarrow> v = Some x \<and> x \<noteq> []"
  by (auto simp: present_def split: option.splits)

lemma leaveRoom_absent: "present r = None \<Longrightarrow> leaveRoom st sock r = (st, None)"
  by (simp add: leaveRoom_def)

lemma leaveRoom_present:
  "present r = Some rid \<Longrightarrow> leaveRoom st sock r = leave_notify (leave_sync st sock rid) sock rid"
  by (simp add: leaveRoom_def)

lemma leave_current_idle:
  "present (room_of st (userId sock)) = None \<Longrightarrow> leave_current st sock = (st, None)"
  by (auto simp: leave_current_def room_of_def present_def split: option.splits if_splits)

lemma leave_current_busy:
  "room_of st (userId sock) = Some cur \<Longrightarrow> cur \<noteq> [] \<Longrightarrow>
   leave_current st sock = leave_notify (leave_sync st sock cur) sock cur"
  by (auto simp: leave_current_def room_of_def leaveRoom_def present_def split: option.splits)

lemma consistent_leaveRoom:
  assumes "consistent st" and "sock \<in> set (sockets st)"
  shows "consistent (fst (leaveRoom st sock r))"
proof (cases "present r")
  case None
  then show ?thesis using assms by (simp add: leaveRoom_absent)
next
  case (Some rid)
  have "consistent (leave_sync st sock rid)" using assms by (rule consistent_leave_sync)
  with same_mem_leave_notify show ?thesis
    unfolding leaveRoom_present [OF Some] by (rule consistent_cong)
qed

lemma consistent_leave_current:
  assumes c: "consistent st" and live: "sock \<in> set (sockets st)"
  shows "consistent (fst (leave_current st sock))"
    and "room_of (fst (leave_current st sock)) (userId sock) = None"
proof -
  have "consistent (fst (leave_current st sock)) \<and>
        room_of (fst (leave_current st sock)) (userId sock) = None"
  proof (cases "room_of st (userId sock)")
    case None
    then have "leave_current st sock = (st, None)"
      by (simp add: leave_current_idle present_def)
    then show ?thesis using c None by simp
  next
    case (Some cur)
    have ne: "cur \<noteq> []" using consistentD(4) [OF c Some] .
    have eq: "leave_current st sock = leave_notify (leave_sync st sock cur) sock cur"
      using Some ne by (rule leave_current_busy)
    have sm: "same_mem (leave_sync st sock cur) (fst (leave_current st sock))"
      unfolding eq by (rule same_mem_leave_notify)
    have "consistent (leave_sync st sock cur)" using c live by (rule consistent_leave_sync)
    with sm have "consistent (fst (leave_current st sock))" by (rule consistent_cong)
    moreover have "room_of (fst (leave_current st sock)) (userId sock) = None"
      using Some by (simp add: room_of_cong [OF sm] leave_sync_room_of)
    ultimately show ?thesis ..
  qed
  then show "consistent (fst (leave_current st sock))"
    and "room_of (fst (leave_current st sock)) (userId sock) = None" by simp_all
qed

lemma sockets_leave_current [simp]: "sockets (fst (leave_current st sock)) = sockets st"
proof -
  have "\<And>rid. sockets (fst (leave_notify (leave_sync st sock rid) sock rid)) = sockets st"
    using same_mem_leave_notify by (simp add: same_mem_def)
  then show ?thesis
    by (simp add: leave_current_def leaveRoom_def split: option.splits)
qed

lemma consistent_handleJoinRoom:
  assumes c: "consistent st" and live: "sock \<in> set (sockets st)"
  shows "consistent (handleJoinRoom st sock r)"
proof -
  let ?st1 = "fst (leave_current st sock)"
  have c1: "consistent ?st1" and free: "room_of ?st1 (userId sock) = None"
    using c live by (rule consistent_leave_current)+
  have failed: "consistent (join_failed ?st1 sock)"
    using _ c1 by (rule consistent_cong) simp
  have joined: "consistent (join_notify (join_sync ?st1 sock rid) sock rid ro)"
    if "rid \<noteq> []" for rid ro
  proof -
    have "consistent (join_sync ?st1 sock rid)"
      using c1 _ free that by (rule consistent_join_sync) (simp add: live)
    with same_mem_join_notify show ?thesis by (rule consistent_cong)
  qed
  have errs: "consistent (socket_emit st sock ev)" "consistent (join_failed st sock)" for ev
    using c by (auto intro: consistent_cong [rotated])
  show ?thesis
    unfolding handleJoinRoom_def
    using errs failed joined
    by (auto simp: present_Some split: option.splits sum.splits prod.splits)
qed

lemma consistent_handleLeaveRoom:
  assumes "consistent st" and "sock \<in> set (sockets st)"
  shows "consistent (handleLeaveRoom st sock r)"
proof -
  have c: "consistent (fst (leaveRoom st sock r))" using assms by (rule consistent_leaveRoom)
  then have "consistent (socket_emit (fst (leaveRoom st sock r)) sock ev)" for ev
    using consistent_cong [of "fst (leaveRoom st sock r)"] by simp
  with c show ?thesis
    by (cases "leaveRoom st sock r") (auto simp: handleLeaveRoom_def split: option.splits)
qed

lemma same_mem_handleSendMessage: "same_mem st (handleSendMessage st sock r c)"
  by (simp add: handleSendMessage_def Let_def
       split: option.splits sum.splits prod.splits exn.splits)

lemma same_mem_handleGetRoomParticipants: "same_mem st (handleGetRoomParticipants st sock r)"
  by (simp add: handleGetRoomParticipants_def split: option.splits)

lemma consistent_initial: "consistent (initial d)"
  by (simp add: consistent_def initial_def room_of_def members_def)

lemma consistent_handleConnection:
  assumes c: "consistent st"
    and i: "sid sock \<notin> sid ` set (sockets st)"
    and u: "userId sock \<notin> userId ` set (sockets st)"
  shows "consistent (handleConnection (st\<lparr>sockets := sockets st @ [sock]\<rparr>) sock)"
proof (rule consistentI)
  note d = consistentD [OF c]
  let ?st' = "handleConnection (st\<lparr>sockets := sockets st @ [sock]\<rparr>) sock"
  have s: "sockets ?st' = sockets st @ [sock]" and j: "joined ?st' = joined st"
    and m: "members ?st' = members st"
    and cu: "connectedUsers ?st' = (connectedUsers st)(userId sock \<mapsto>
          \<lparr>socketId = sid sock, info_username = username sock, currentRoom = None\<rparr>)"
    by (simp_all add: handleConnection_def members_def fun_eq_iff)
  have ro: "room_of ?st' v = (if v = userId sock then None else room_of st v)" for v
    by (simp add: room_of_def cu)
  have idle: "room_of st (userId sock) = None"
    using d(5) [of "userId sock"] u by (cases "room_of st (userId sock)") auto
  show "distinct (map sid (sockets ?st'))" using d(1) i by (simp add: s)
  show "distinct (map userId (sockets ?st'))" using d(2) u by (simp add: s)
  show "connectedUsers ?st' (userId x) \<noteq> None" if "x \<in> set (sockets ?st')" for x
    using that d(3) [of x] by (auto simp: s cu)
  show "r \<noteq> []" if "room_of ?st' v = Some r" for v r
    using that d(4) [of v r] by (simp add: ro split: if_splits)
  show "v \<in> userId ` set (sockets ?st')" if "room_of ?st' v = Some r" for v r
    using that d(5) [of v r] by (simp add: ro s split: if_splits)
  show "(v \<in> members ?st' r) = (room_of ?st' v = Some r)" for v r
    using d(6) [of v r] idle by (auto simp: m ro)
  show "joined ?st' (sid x) = set_option (room_of ?st' (userId x))"
    if "x \<in> set (sockets ?st')" for x
  proof (cases "x = sock")
    case True
    then show ?thesis using d(8) [OF i] by (simp add: j ro)
  next
    case False
    with that have x: "x \<in> set (sockets st)" by (simp add: s)
    then have "userId x \<noteq> userId sock" using u by (metis imageI)
    then show ?thesis using d(7) [OF x] by (simp add: j ro)
  qed
  show "joined ?st' k = {}" if "k \<notin> sid ` set (sockets ?st')" for k
    using that d(8) [of k] by (simp add: j s)
qed

lemma consistent_io_connection:
  assumes c: "consistent st"
    and i: "i \<notin> sid ` set (sockets st)"
    and u: "\<And>uid uname. setupMiddleware verifyToken (db st) hs = Inr (uid, uname) \<Longrightarrow>
              uid \<notin> userId ` set (sockets st)"
  shows "consistent (io_connection verifyToken st i hs)"
proof (cases "setupMiddleware verifyToken (db st) hs")
  case (Inl err)
  have "consistent (emit st [i] (ConnectError err))"
    using _ c by (rule consistent_cong) simp
  with Inl show ?thesis by (simp add: io_connection_def)
next
  case (Inr p)
  obtain uid uname where p: "p = (uid, uname)" by (cases p)
  let ?sock = "\<lparr>sid = i, userId = uid, username = uname\<rparr>"
  have "consistent (handleConnection (st\<lparr>sockets := sockets st @ [?sock]\<rparr>) ?sock)"
    using c i u [of uid uname] Inr p by (intro consistent_handleConnection) simp_all
  with Inr p show ?thesis by (simp add: io_connection_def Let_def)
qed

lemma consistent_removed:
  assumes c: "consistent st" and live: "sock \<in> set (sockets st)"
    and s: "sockets f = filter (\<lambda>x. sid x \<noteq> sid sock) (sockets st)"
    and j: "joined f = (joined st)(sid sock := {})"
    and cu: "\<And>u. u \<noteq> userId sock \<Longrightarrow> connectedUsers f u = connectedUsers st u"
    and ro: "room_of f (userId sock) = None"
    and m: "\<And>r. members f r = members st r - {userId sock}"
  shows "consistent f"
proof (rule consistentI)
  note d = consistentD [OF c]
  have others: "x \<in> set (sockets st) \<and> sid x \<noteq> sid sock \<and> userId x \<noteq> userId sock"
    if "x \<in> set (sockets f)" for x
  proof -
    from that have x: "x \<in> set (sockets st)" and i: "sid x \<noteq> sid sock" by (simp_all add: s)
    from i have "x \<noteq> sock" by auto
    then have "userId x \<noteq> userId sock" using distinct_map_eq [OF d(2) x live] by blast
    with x i show ?thesis by simp
  qed
  have keep: "x \<in> set (sockets f)" if "x \<in> set (sockets st)" "x \<noteq> sock" for x
    using that distinct_map_eq [OF d(1) that(1) live] by (auto simp: s)
  have ro': "room_of f u = room_of st u" if "u \<noteq> userId sock" for u
    using cu [OF that] by (simp add: room_of_def)
  show "distinct (map sid (sockets f))" using d(1) by (simp add: s distinct_map_filter)
  show "distinct (map userId (sockets f))" using d(2) by (simp add: s distinct_map_filter)
  show "connectedUsers f (userId x) \<noteq> None" if "x \<in> set (sockets f)" for x
    using others [OF that] d(3) [of x] by (simp add: cu)
  show "r \<noteq> []" if "room_of f u = Some r" for u r
    using that ro d(4) [of u r] by (cases "u = userId sock") (simp_all add: ro')
  show "u \<in> userId ` set (sockets f)" if "room_of f u = Some r" for u r
  proof -
    have u: "u \<noteq> userId sock" using that ro by auto
    then have "room_of st u = Some r" using that by (simp add: ro')
    then obtain x where x: "x \<in> set (sockets st)" and ux: "u = userId x"
      using d(5) [of u r] by auto
    with u have "x \<noteq> sock" by auto
    then have "x \<in> set (sockets f)" using x keep by simp
    with ux show ?thesis by simp
  qed
  show "(u \<in> members f r) = (room_of f u = Some r)" for u r
    using d(6) [of u r] ro by (cases "u = userId sock") (simp_all add: m ro')
  show "joined f (sid x) = set_option (room_of f (userId x))" if "x \<in> set (sockets f)" for x
    using others [OF that] d(7) [of x] by (simp add: j ro')
  show "joined f i = {}" if "i \<notin> sid ` set (sockets f)" for i
  proof (cases "i = sid sock")
    case True
    then show ?thesis by (simp add: j)
  next
    case False
    have "i \<notin> sid ` set (sockets st)"
    proof
      assume "i \<in> sid ` set (sockets st)"
      then obtain x where x: "x \<in> set (sockets st)" and ix: "i = sid x" by auto
      with False have "x \<in> set (sockets f)" by (simp add: s)
      with ix that show False by simp
    qed
    then show ?thesis using d(8) [of i] False by (simp add: j)
  qed
qed

lemma unplug_fields [simp]:
  "sockets (unplug st sock) = filter (\<lambda>x. sid x \<noteq> sid sock) (sockets st)"
  "joined (unplug st sock) = (joined st)(sid sock := {})"
  "connectedUsers (unplug st sock) = connectedUsers st"
  "roomParticipants (unplug st sock) = roomParticipants st"
  "db (unplug st sock) = db st"
  "outbox (unplug st sock) = outbox st"
  "room_of (unplug st sock) = room_of st"
  "members (unplug st sock) = members st"
  by (simp_all add: unplug_def room_of_def members_def fun_eq_iff)

lemma io_disconnect_unplug: "io_disconnect st sock = handleDisconnect (unplug st sock) sock"
  by (simp add: io_disconnect_def)

lemma consistent_io_disconnect:
  assumes c: "consistent st" and live: "sock \<in> set (sockets st)"
  shows "consistent (io_disconnect st sock)"
proof (cases "room_of st (userId sock)")
  case None
  have "leave_current (unplug st sock) sock = (unplug st sock, None)"
    by (rule leave_current_idle) (simp add: None present_def)
  then have eq: "io_disconnect st sock =
      (unplug st sock)\<lparr>connectedUsers := (connectedUsers st)(userId sock := None)\<rparr>"
    by (simp add: io_disconnect_unplug handleDisconnect_def)
  have idle: "userId sock \<notin> members st r" for r
    using consistentD(6) [OF c, of "userId sock" r] None by simp
  show ?thesis
    using c live unfolding eq
    by (rule consistent_removed) (simp_all add: room_of_def members_def idle [unfolded members_def])
next
  case (Some cur)
  have ne: "cur \<noteq> []" using consistentD(4) [OF c Some] .
  let ?l = "leave_sync (unplug st sock) sock cur"
  obtain st1 e where res: "leave_notify ?l sock cur = (st1, e)" by (cases "leave_notify ?l sock cur")
  have lc: "leave_current (unplug st sock) sock = (st1, e)"
    using leave_current_busy [of "unplug st sock" sock cur] Some ne res by simp
  have sm: "same_mem ?l st1" using same_mem_leave_notify [of ?l sock cur] res by simp
  have only: "members st r - {userId sock} = members st r" if "r \<noteq> cur" for r
    using consistentD(6) [OF c, of "userId sock" r] Some that by auto
  have f: "sockets st1 = filter (\<lambda>x. sid x \<noteq> sid sock) (sockets st)"
    "joined st1 = (joined st)(sid sock := {})"
    "\<And>u. u \<noteq> userId sock \<Longrightarrow> connectedUsers st1 u = connectedUsers st u"
    "room_of st1 (userId sock) = None"
    "\<And>r. members st1 r = members st r - {userId sock}"
    using sm Some only
    by (auto simp: same_mem_def room_of_cong [OF sm] members_cong [OF sm] leave_sync_joined
          leave_sync_connectedUsers leave_sync_room_of leave_sync_members fun_eq_iff
          split: option.splits)
  have c1: "consistent st1" using c live f by (rule consistent_removed)
  have c2: "consistent (st1\<lparr>connectedUsers := (connectedUsers st1)(userId sock := None)\<rparr>)"
    using c live
    by (rule consistent_removed) (simp_all add: f room_of_def members_def f(5) [unfolded members_def])
  show ?thesis
    using c1 c2 lc by (cases e) (simp_all add: io_disconnect_unplug handleDisconnect_def)
qed

lemma sequential1_consistent: "sequential1 st \<Longrightarrow> consistent st"
proof (induction rule: sequential1.induct)
  case (start d)
  show ?case by (rule consistent_initial)
next
  case (connect st i verifyToken hs)
  then show ?case by (intro consistent_io_connection)
next
  case (join st sock r)
  then show ?case by (intro consistent_handleJoinRoom)
next
  case (leave st sock r)
  then show ?case by (intro consistent_handleLeaveRoom)
next
  case (send st sock r c)
  from same_mem_handleSendMessage send.IH show ?case by (rule consistent_cong)
next
  case (list st sock r)
  from same_mem_handleGetRoomParticipants list.IH show ?case by (rule consistent_cong)
next
  case (disconnect st sock)
  then show ?case by (intro consistent_io_disconnect)
next
  case (store st d)
  have "same_mem st (st\<lparr>db := d\<rparr>)" by simp
  then show ?case using store.IH by (rule consistent_cong)
qed


subsection \<open>Participant sets and live connections\<close>

lemmas model_defs =
  io_connection_def setupMiddleware_def handleConnection_def present_def socket_emit_def emit_def
  handleJoinRoom_def Room_findById_def leave_current_def leaveRoom_def leave_sync_def
  leave_notify_def join_sync_def join_notify_def join_failed_def addParticipant_def
  removeParticipant_def Room_save_def createUserJoinedNotification_def
  createUserLeftNotification_def createNotification_def Message_create_def validate_def
  validateContent_def validateMessageType_def io_to_def socket_to_def
  getRoomParticipantsList_def handleDisconnect_def io_disconnect_def unplug_def handleLeaveRoom_def
  handleSendMessage_def handleGetRoomParticipants_def

lemma js_trim_notif [simp]: "js_trim ''alice joined the room'' = ''alice joined the room''"
  by (simp add: js_trim_def js_whitespace_def)

lemma js_trim_left [simp]: "js_trim ''alice left the room'' = ''alice left the room''"
  by (simp add: js_trim_def js_whitespace_def)

lemma two_tabs_1_eq:
  "two_tabs_1 = \<lparr>connectedUsers = [''u1'' \<mapsto> \<lparr>socketId = ''s1'', info_username = ''alice'', currentRoom = None\<rparr>],
     roomParticipants = Map.empty, sockets = [tab1], joined = (\<lambda>_. {}), db = db_general,
     outbox = [(''s1'', Connected ''u1'' ''alice'')]\<rparr>"
  by (simp add: two_tabs_1_def model_defs initial_def db_general_def verify_demo_def hs_alice_def tab1_def)

lemma two_tabs_2_mem:
  "connectedUsers two_tabs_2 = [''u1'' \<mapsto> \<lparr>socketId = ''s1'', info_username = ''alice'', currentRoom = Some ''A''\<rparr>]"
  "roomParticipants two_tabs_2 = [''A'' \<mapsto> set_add set_new ''u1'']"
  "sockets two_tabs_2 = [tab1]"
  "joined two_tabs_2 = (\<lambda>_. {})(''s1'' := {''A''})"
  "connected (db two_tabs_2)"
  "users (db two_tabs_2) = [''u1'' \<mapsto> ''alice'', ''u2'' \<mapsto> ''bob'']"
  by (simp_all add: two_tabs_2_def two_tabs_1_eq model_defs db_general_def room_general_def tab1_def
       set_new.rep_eq set_add.rep_eq Let_def)

lemma two_tabs_3_mem:
  "connectedUsers two_tabs_3 = [''u1'' \<mapsto> \<lparr>socketId = ''s2'', info_username = ''alice'', currentRoom = None\<rparr>]"
  "roomParticipants two_tabs_3 = [''A'' \<mapsto> set_add set_new ''u1'']"
  "sockets two_tabs_3 = [tab1, tab2]"
  "joined two_tabs_3 = (\<lambda>_. {})(''s1'' := {''A''})"
  by (simp_all add: two_tabs_3_def two_tabs_2_mem io_connection_def setupMiddleware_def
       handleConnection_def socket_emit_def emit_def present_def verify_demo_def hs_alice_def
       tab1_def tab2_def)

lemma two_tabs_4_mem:
  "connectedUsers two_tabs_4 = Map.empty"
  "roomParticipants two_tabs_4 = [''A'' \<mapsto> set_add set_new ''u1'']"
  "sockets two_tabs_4 = [tab2]"
  "joined two_tabs_4 = (\<lambda>_. {})"
  by (simp_all add: two_tabs_4_def two_tabs_3_mem io_disconnect_def unplug_def handleDisconnect_def
       leave_current_def present_def tab1_def tab2_def fun_eq_iff)

lemma second_room_fields [simp]:
  "connectedUsers (second_room st) = connectedUsers st"
  "roomParticipants (second_room st) = roomParticipants st"
  "sockets (second_room st) = sockets st"
  "joined (second_room st) = joined st"
  "outbox (second_room st) = outbox st"
  "connected (db (second_room st)) = connected (db st)"
  "rooms (db (second_room st)) = (rooms (db st))(''B'' \<mapsto> room_random)"
  "messages (db (second_room st)) = messages (db st)"
  "users (db (second_room st)) = users (db st)"
  "room_of (second_room st) = room_of st"
  "members (second_room st) = members st"
  by (simp_all add: second_room_def room_of_def members_def fun_eq_iff)

lemma third_room_fields [simp]:
  "connectedUsers (third_room st) = connectedUsers st"
  "roomParticipants (third_room st) = roomParticipants st"
  "sockets (third_room st) = sockets st"
  "joined (third_room st) = joined st"
  "outbox (third_room st) = outbox st"
  "connected (db (third_room st)) = connected (db st)"
  "rooms (db (third_room st)) = (rooms (db st))(''C'' \<mapsto> room_games)"
  "messages (db (third_room st)) = messages (db st)"
  "users (db (third_room st)) = users (db st)"
  "room_of (third_room st) = room_of st"
  "members (third_room st) = members st"
  by (simp_all add: third_room_def room_of_def members_def fun_eq_iff)

lemma overlap_1_mem:
  "connectedUsers overlap_1 = [''u1'' \<mapsto> \<lparr>socketId = ''s1'', info_username = ''alice'', currentRoom = None\<rparr>]"
  "roomParticipants overlap_1 = Map.empty"
  "sockets overlap_1 = [tab1]"
  "joined overlap_1 = (\<lambda>_. {})"
  "db overlap_1 = db three_rooms"
  "outbox overlap_1 = outbox three_rooms"
  by (simp_all add: overlap_1_def three_rooms_def leave_sync_def two_tabs_2_mem tab1_def
       set_size_def set_delete.rep_eq set_add.rep_eq set_new.rep_eq Let_def fun_eq_iff)

lemma overlap_2_mem:
  "connectedUsers overlap_2 = [''u1'' \<mapsto> \<lparr>socketId = ''s1'', info_username = ''alice'', currentRoom = Some ''C''\<rparr>]"
  "roomParticipants overlap_2 = [''C'' \<mapsto> set_add set_new ''u1'']"
  "sockets overlap_2 = [tab1]"
  "joined overlap_2 = (\<lambda>_. {})(''s1'' := {''C''})"
  "db overlap_2 = db three_rooms"
  by (simp_all add: overlap_2_def overlap_1_mem join_sync_def tab1_def Let_def)

lemma overlap_3_mem:
  "connectedUsers overlap_3 = [''u1'' \<mapsto> \<lparr>socketId = ''s1'', info_username = ''alice'', currentRoom = Some ''B''\<rparr>]"
  "roomParticipants overlap_3 = [''C'' \<mapsto> set_add set_new ''u1'', ''B'' \<mapsto> set_add set_new ''u1'']"
  "sockets overlap_3 = [tab1]"
  "joined overlap_3 = (\<lambda>_. {})(''s1'' := {''B'', ''C''})"
  "db overlap_3 = db three_rooms"
  by (simp_all add: overlap_3_def overlap_2_mem join_sync_def tab1_def Let_def)


lemma sequential1_two_tabs_2: "sequential1 two_tabs_2"
proof -
  have "sequential1 two_tabs_1"
    unfolding two_tabs_1_def by (rule sequential1.connect [OF sequential1.start]) (simp_all add: initial_def)
  then show ?thesis
    unfolding two_tabs_2_def by (rule sequential1.join) (simp add: two_tabs_1_eq)
qed

lemma sequential1_three_rooms: "sequential1 three_rooms"
proof -
  have "sequential1 (second_room two_tabs_2)"
    unfolding second_room_def by (rule sequential1.store) (rule sequential1_two_tabs_2)
  then show ?thesis
    unfolding three_rooms_def third_room_def by (rule sequential1.store)
qed

lemma overlap_3_not_sequential1: "\<not> sequential1 overlap_3"
proof
  assume "sequential1 overlap_3"
  then have "consistent overlap_3" by (rule sequential1_consistent)
  from consistentD(6) [OF this, of "''u1''" "''C''"] show False
    by (simp add: members_def room_of_def overlap_3_mem set_add.rep_eq set_new.rep_eq)
qed

lemma two_tabs_4_not_sequential1: "\<not> sequential1 two_tabs_4"
proof
  assume "sequential1 two_tabs_4"
  then have "consistent two_tabs_4" by (rule sequential1_consistent)
  from consistentD(6) [OF this, of "''u1''" "''A''"] show False
    by (simp add: members_def room_of_def two_tabs_4_mem set_add.rep_eq set_new.rep_eq)
qed



subsection \<open>Trimming and notifications\<close>

lemma dropWhile_keeps_last:
  "xs \<noteq> [] \<Longrightarrow> \<not> P (last xs) \<Longrightarrow> dropWhile P xs \<noteq> [] \<and> last (dropWhile P xs) = last xs"
  by (induction xs) (auto split: if_splits)

lemma js_trim_last:
  assumes "s \<noteq> []" and "\<not> js_whitespace (last s)"
  shows "js_trim s = dropWhile js_whitespace s"
proof -
  let ?d = "dropWhile js_whitespace s"
  have d: "?d \<noteq> []" "last ?d = last s" using dropWhile_keeps_last [of s js_whitespace] assms by simp_all
  then have "hd (rev ?d) = last s" by (simp add: hd_rev)
  then have "dropWhile js_whitespace (rev ?d) = rev ?d"
    using d(1) assms(2) by (cases "rev ?d") auto
  then show ?thesis by (simp add: js_trim_def)
qed

lemma js_trim_clean:
  assumes "s \<noteq> []" and "\<not> js_whitespace (hd s)" and "\<not> js_whitespace (last s)"
  shows "js_trim s = s"
proof -
  have "dropWhile js_whitespace s = s" using assms(1,2) by (cases s) auto
  then show ?thesis using js_trim_last [OF assms(1,3)] by simp
qed

lemma notification_valid:
  assumes "rid \<noteq> []" and "length uname \<le> 30" and "tail \<noteq> []" and "\<not> js_whitespace (last tail)"
    and "length tail \<le> 100"
  shows "validate rid ''system'' ''System'' (uname @ tail) (Some ''notification'') = []"
proof -
  have "js_trim (uname @ tail) = dropWhile js_whitespace (uname @ tail)"
    using assms(3,4) by (intro js_trim_last) simp_all
  moreover have "dropWhile js_whitespace (uname @ tail) \<noteq> []"
    using dropWhile_keeps_last [of "uname @ tail" js_whitespace] assms(3,4) by simp
  ultimately have "validateContent (uname @ tail) = []"
    using assms(2,3,5) by (simp add: validateContent_def)
  then show ?thesis
    using assms(1) by (simp add: validate_def validateMessageType_def present_def)
qed

lemma createUserLeftNotification_ok:
  assumes "connected d" and "rid \<noteq> []" and "length uname \<le> 30"
  shows "createUserLeftNotification d rid uname =
           Inr (d\<lparr>messages := messages d @ [left_message rid uname]\<rparr>, left_message rid uname)"
proof -
  have "validate rid ''system'' ''System'' (uname @ '' left the room'') (Some ''notification'') = []"
    using assms(2,3) by (rule notification_valid) (simp_all add: js_whitespace_def)
  then show ?thesis
    using assms(1)
    by (simp add: createUserLeftNotification_def createNotification_def Message_create_def
          left_message_def present_def Let_def)
qed


lemma removeParticipant_ok:
  assumes "connected d" and "uid \<noteq> []"
  shows "\<exists>d1. removeParticipant d rid uid = Inr d1 \<and> connected d1 \<and> messages d1 = messages d \<and>
           users d1 = users d \<and> dom (rooms d1) = dom (rooms d)"
proof (cases "rooms d rid")
  case None
  then show ?thesis using assms by (simp add: removeParticipant_def)
next
  case (Some ro)
  then have "insert rid (dom (rooms d)) = dom (rooms d)" by auto
  then show ?thesis using assms Some by (simp add: removeParticipant_def Room_save_def)
qed


lemma leave_notify_no_room:
  "connected (db st) \<Longrightarrow> rooms (db st) rid = None \<Longrightarrow>
   leave_notify st sock rid = (socket_emit st sock (RoomLeft rid), None)"
  by (simp add: leave_notify_def Room_findById_def)

lemma leave_notify_room:
  assumes "connected (db st)" and "rooms (db st) rid = Some ro" and "valid_user sock"
    and "rid \<noteq> []"
  obtains d' where
    "leave_notify st sock rid =
       (st\<lparr>db := d', outbox := outbox st @ leave_events st sock rid @ [(sid sock, RoomLeft rid)]\<rparr>,
        None)"
    and "connected d'"
proof -
  from assms(3) have u: "userId sock \<noteq> []" and n: "length (username sock) \<le> 30"
    by (simp_all add: valid_user_def)
  obtain d1 where d1: "removeParticipant (db st) rid (userId sock) = Inr d1" "connected d1"
    using removeParticipant_ok [OF assms(1) u] by blast
  let ?m = "left_message rid (username sock)"
  let ?d2 = "d1\<lparr>messages := messages d1 @ [?m]\<rparr>"
  have created: "createUserLeftNotification d1 rid (username sock) = Inr (?d2, ?m)"
    using d1(2) assms(4) n by (rule createUserLeftNotification_ok)
  have "leave_notify st sock rid =
       (st\<lparr>db := ?d2, outbox := outbox st @ leave_events st sock rid @ [(sid sock, RoomLeft rid)]\<rparr>,
        None)"
    using assms(1,2) d1(1) created
    by (simp add: leave_notify_def Room_findById_def Let_def leave_events_def socket_emit_def
          emit_def socket_to_def getRoomParticipantsList_def)
  moreover have "connected ?d2" using d1(2) by simp
  ultimately show ?thesis by (rule that)
qed

lemma leave_notify_ack:
  assumes "connected (db st)" and "valid_user sock" and "rid \<noteq> []"
  shows "snd (leave_notify st sock rid) = None"
    and "outbox (fst (leave_notify st sock rid)) =
           outbox st @ (if rooms (db st) rid = None then [] else leave_events st sock rid) @
           [(sid sock, RoomLeft rid)]"
    and "connected (db (fst (leave_notify st sock rid)))"
proof -
  have "snd (leave_notify st sock rid) = None \<and>
        outbox (fst (leave_notify st sock rid)) =
           outbox st @ (if rooms (db st) rid = None then [] else leave_events st sock rid) @
           [(sid sock, RoomLeft rid)] \<and>
        connected (db (fst (leave_notify st sock rid)))"
  proof (cases "rooms (db st) rid")
    case None
    then show ?thesis using assms(1) by (simp add: leave_notify_no_room)
  next
    case (Some ro)
    obtain d' where "leave_notify st sock rid =
       (st\<lparr>db := d', outbox := outbox st @ leave_events st sock rid @ [(sid sock, RoomLeft rid)]\<rparr>,
        None)" "connected d'"
      using assms(1) Some assms(2,3) by (rule leave_notify_room)
    then show ?thesis using Some by simp
  qed
  then show "snd (leave_notify st sock rid) = None"
    and "outbox (fst (leave_notify st sock rid)) =
           outbox st @ (if rooms (db st) rid = None then [] else leave_events st sock rid) @
           [(sid sock, RoomLeft rid)]"
    and "connected (db (fst (leave_notify st sock rid)))" by simp_all
qed

subsection \<open>Leaving a room\<close>

lemma roomParticipants_leaveRoom:
  "rid \<noteq> [] \<Longrightarrow>
   roomParticipants (fst (leaveRoom st sock (Some rid))) = roomParticipants (leave_sync st sock rid)"
  using same_mem_leave_notify [of "leave_sync st sock rid" sock rid]
  by (simp add: leaveRoom_def present_def same_mem_def)

lemma connectedUsers_leaveRoom:
  "rid \<noteq> [] \<Longrightarrow>
   connectedUsers (fst (leaveRoom st sock (Some rid))) = connectedUsers (leave_sync st sock rid)"
  using same_mem_leave_notify [of "leave_sync st sock rid" sock rid]
  by (simp add: leaveRoom_def present_def same_mem_def)

lemma leave_sync_last:
  assumes "members st rid = {userId sock}"
  shows "roomParticipants (leave_sync st sock rid) = (roomParticipants st)(rid := None)"
proof (cases "roomParticipants st rid")
  case None
  then show ?thesis using assms by (simp add: members_def)
next
  case (Some ps)
  with assms have "set (elems ps) = {userId sock}" by (simp add: members_def)
  then have "set_size (set_delete ps (userId sock)) = 0"
    by (simp add: set_size_0 set_elems_delete)
  with Some show ?thesis by (simp add: leave_sync_roomParticipants)
qed

lemma leave_sync_no_empty_set:
  assumes "no_empty_set st"
  shows "no_empty_set (leave_sync st sock rid)"
  using assms
  by (auto simp: no_empty_set_def leave_sync_roomParticipants set_size_def
        split: option.splits if_splits)

text \<open>
  C7. When the user of the connection is the only element of the participant set of a
  room, \<open>leaveRoom\<close> for that room deletes the entry of the room from
  \<open>roomParticipants\<close> and leaves every other entry as it was; so if no room was mapped
  to an empty set before the call, none is after it.
\<close>

theorem leaveRoom_last_participant:
  assumes "rid \<noteq> []" and "members st rid = {userId sock}"
  shows "roomParticipants (fst (leaveRoom st sock (Some rid))) rid = None \<and>
         (\<forall>r. r \<noteq> rid \<longrightarrow>
            roomParticipants (fst (leaveRoom st sock (Some rid))) r = roomParticipants st r) \<and>
         (no_empty_set st \<longrightarrow> no_empty_set (fst (leaveRoom st sock (Some rid))))"
proof -
  have rp: "roomParticipants (fst (leaveRoom st sock (Some rid))) = (roomParticipants st)(rid := None)"
    using assms by (simp add: roomParticipants_leaveRoom leave_sync_last)
  have "no_empty_set (fst (leaveRoom st sock (Some rid)))" if "no_empty_set st"
    using that unfolding no_empty_set_def rp by (auto split: if_splits)
  with rp show ?thesis by simp
qed

theorem leaveRoom_last_participant_witness:
  "''A'' \<noteq> [] \<and> members two_tabs_2 ''A'' = {userId tab1} \<and> no_empty_set two_tabs_2 \<and>
   roomParticipants (fst (leaveRoom two_tabs_2 tab1 (Some ''A''))) ''A'' = None \<and>
   no_empty_set (fst (leaveRoom two_tabs_2 tab1 (Some ''A'')))"
proof -
  have m: "members two_tabs_2 ''A'' = {userId tab1}"
    by (simp add: members_def two_tabs_2_mem tab1_def set_add.rep_eq set_new.rep_eq)
  have n: "no_empty_set two_tabs_2"
    by (simp add: no_empty_set_def two_tabs_2_mem set_add.rep_eq set_new.rep_eq)
  show ?thesis
    using leaveRoom_last_participant [of "''A''" two_tabs_2 tab1] m n by simp
qed

text \<open>
  C10, as stated, fails in two ways: the acknowledgment is not sent in every case. First,
  \<^verbatim>\<open>leaveRoom\<close> reads the room record at line 241, and when the database is not
  connected the read throws: the connection \<open>s1\<close>, in room \<open>A\<close>, asks to leave \<open>B\<close>
  in \<open>store_down\<close> and only gets the error \<open>Failed to leave room\<close>. Second, a room
  id that is the empty string is falsy, and line 217 returns before anything is emitted.
\<close>

theorem leave_unacknowledged_counterexample:
  "room_of store_down (userId tab1) = Some ''A'' \<and> ''B'' \<noteq> ''A'' \<and>
   new_events store_down (handleLeaveRoom store_down tab1 (Some ''B'')) =
     [(''s1'', ErrorEv ''Failed to leave room'' [])] \<and>
   room_of two_tabs_2 (userId tab1) = Some ''A'' \<and> '''' \<noteq> ''A'' \<and>
   new_events two_tabs_2 (handleLeaveRoom two_tabs_2 tab1 (Some '''')) = []"
proof -
  have "room_of store_down (userId tab1) = Some ''A''"
    by (simp add: room_of_def store_down_def two_tabs_2_mem tab1_def)
  moreover have "new_events store_down (handleLeaveRoom store_down tab1 (Some ''B'')) =
     [(''s1'', ErrorEv ''Failed to leave room'' [])]"
    by (simp add: new_events_def handleLeaveRoom_def leaveRoom_def present_def leave_notify_def
          Room_findById_def leave_sync_def store_down_def two_tabs_2_mem socket_emit_def emit_def
          tab1_def Let_def)
  moreover have "room_of two_tabs_2 (userId tab1) = Some ''A''"
    by (simp add: room_of_def two_tabs_2_mem tab1_def)
  moreover have "new_events two_tabs_2 (handleLeaveRoom two_tabs_2 tab1 (Some '''')) = []"
    by (simp add: new_events_def handleLeaveRoom_def leaveRoom_def present_def)
  ultimately show ?thesis by simp
qed


text \<open>
  C10, amended. Let the registry entry of the user of a connection have current room
  \<open>A\<close>, and let \<open>r\<close> be a room id other than \<open>A\<close> that is not the empty string. When
  the database is connected and the connection carries the identity of a stored user (a
  non-empty user id and a username of 3 to 30 characters), a \<^verbatim>\<open>leave-room\<close>
  request for \<open>r\<close> leaves the registry entry (so the current room \<open>A\<close>) and the
  participant set of \<open>A\<close> unchanged, and the last event it emits is the
  \<^verbatim>\<open>room-left\<close> acknowledgment for \<open>r\<close>, sent to the requesting connection.
\<close>

theorem leave_other_room:
  assumes "connectedUsers st (userId sock) = Some info" and "currentRoom info = Some A"
    and "r \<noteq> A" and "r \<noteq> []" and "connected (db st)" and "valid_user sock"
  shows "connectedUsers (handleLeaveRoom st sock (Some r)) (userId sock) = Some info \<and>
         roomParticipants (handleLeaveRoom st sock (Some r)) A = roomParticipants st A \<and>
         last (outbox (handleLeaveRoom st sock (Some r))) = (sid sock, RoomLeft r)"
proof -
  let ?l = "leave_sync st sock r"
  have lr: "leaveRoom st sock (Some r) = leave_notify ?l sock r"
    using assms(4) by (simp add: leaveRoom_def present_def)
  have c: "connected (db ?l)" using assms(5) by simp
  note ack = leave_notify_ack [OF c assms(6,4)]
  have h: "handleLeaveRoom st sock (Some r) = fst (leaveRoom st sock (Some r))"
    using ack(1) by (cases "leave_notify ?l sock r") (simp add: handleLeaveRoom_def lr)
  have "connectedUsers ?l = connectedUsers st"
    using assms(1,2,3) by (simp add: leave_sync_connectedUsers)
  moreover have "roomParticipants ?l A = roomParticipants st A"
    using assms(3) by (simp add: leave_sync_roomParticipants split: option.splits)
  moreover have "last (outbox (fst (leave_notify ?l sock r))) = (sid sock, RoomLeft r)"
    by (simp add: ack(2))
  ultimately show ?thesis
    using assms(1,4)
    by (simp add: h roomParticipants_leaveRoom connectedUsers_leaveRoom) (simp add: lr)
qed

theorem leave_other_room_witness:
  "connectedUsers two_tabs_2 (userId tab1) =
     Some \<lparr>socketId = ''s1'', info_username = ''alice'', currentRoom = Some ''A''\<rparr> \<and>
   ''B'' \<noteq> ''A'' \<and> ''B'' \<noteq> [] \<and> connected (db two_tabs_2) \<and> valid_user tab1 \<and>
   connectedUsers (handleLeaveRoom two_tabs_2 tab1 (Some ''B'')) ''u1'' =
     Some \<lparr>socketId = ''s1'', info_username = ''alice'', currentRoom = Some ''A''\<rparr> \<and>
   roomParticipants (handleLeaveRoom two_tabs_2 tab1 (Some ''B'')) ''A'' =
     Some (set_add set_new ''u1'') \<and>
   last (outbox (handleLeaveRoom two_tabs_2 tab1 (Some ''B''))) = (''s1'', RoomLeft ''B'')"
proof -
  have v: "valid_user tab1" by (simp add: valid_user_def tab1_def)
  have e: "connectedUsers two_tabs_2 (userId tab1) =
     Some \<lparr>socketId = ''s1'', info_username = ''alice'', currentRoom = Some ''A''\<rparr>"
    by (simp add: two_tabs_2_mem tab1_def)
  show ?thesis
    using leave_other_room [OF e, of "''A''" "''B''"] v e
    by (simp add: two_tabs_2_mem) (simp add: tab1_def)
qed

subsection \<open>Authentication\<close>

lemma setupMiddleware_rejects:
  assumes "auth_rejected verifyToken d hs"
  shows "\<exists>err \<in> {''Authentication token required'', ''Authentication failed'', ''User not found''}.
           setupMiddleware verifyToken d hs = Inl err"
  using assms
  by (auto simp: auth_rejected_def token_of_def setupMiddleware_def Let_def split: option.splits)

text \<open>
  C9. A connection whose handshake carries no token (none, or an empty one, in both the
  \<^verbatim>\<open>auth\<close> field and the query), a token that \<open>verifyToken\<close> rejects, or a token
  whose user id has no user record, is refused by the middleware with one of its three
  errors. The refusal is the only effect: the registry, the participant sets, the live
  sockets (so no handler can run for the connection) and the database are unchanged.
  Conversely, a connection that changes the registry or becomes a live socket has
  passed the middleware.
\<close>

theorem refused_connection_not_registered:
  "(auth_rejected verifyToken (db st) hs \<longrightarrow>
      (\<exists>err \<in> {''Authentication token required'', ''Authentication failed'', ''User not found''}.
         io_connection verifyToken st i hs = st\<lparr>outbox := outbox st @ [(i, ConnectError err)]\<rparr>)) \<and>
   (connectedUsers (io_connection verifyToken st i hs) \<noteq> connectedUsers st \<or>
    sockets (io_connection verifyToken st i hs) \<noteq> sockets st \<longrightarrow>
      \<not> auth_rejected verifyToken (db st) hs \<and>
      (\<exists>uid uname. setupMiddleware verifyToken (db st) hs = Inr (uid, uname)))"
proof (intro conjI impI)
  assume "auth_rejected verifyToken (db st) hs"
  then obtain err where
    "err \<in> {''Authentication token required'', ''Authentication failed'', ''User not found''}"
    and "setupMiddleware verifyToken (db st) hs = Inl err"
    using setupMiddleware_rejects by blast
  then show "\<exists>err \<in> {''Authentication token required'', ''Authentication failed'', ''User not found''}.
         io_connection verifyToken st i hs = st\<lparr>outbox := outbox st @ [(i, ConnectError err)]\<rparr>"
    by (auto simp: io_connection_def emit_def)
next
  assume changed: "connectedUsers (io_connection verifyToken st i hs) \<noteq> connectedUsers st \<or>
    sockets (io_connection verifyToken st i hs) \<noteq> sockets st"
  show "\<not> auth_rejected verifyToken (db st) hs"
  proof
    assume "auth_rejected verifyToken (db st) hs"
    then obtain err where "setupMiddleware verifyToken (db st) hs = Inl err"
      using setupMiddleware_rejects by blast
    then have "connectedUsers (io_connection verifyToken st i hs) = connectedUsers st"
      and "sockets (io_connection verifyToken st i hs) = sockets st"
      by (simp_all add: io_connection_def)
    with changed show False by simp
  qed
  show "\<exists>uid uname. setupMiddleware verifyToken (db st) hs = Inr (uid, uname)"
  proof (cases "setupMiddleware verifyToken (db st) hs")
    case (Inl err)
    then have "connectedUsers (io_connection verifyToken st i hs) = connectedUsers st"
      and "sockets (io_connection verifyToken st i hs) = sockets st"
      by (simp_all add: io_connection_def)
    with changed show ?thesis by simp
  next
    case (Inr p)
    then show ?thesis by (cases p) simp
  qed
qed

theorem refused_connection_not_registered_witness:
  "auth_rejected verify_demo (db two_tabs_2) hs_none \<and>
   io_connection verify_demo two_tabs_2 ''s9'' hs_none =
     two_tabs_2\<lparr>outbox := outbox two_tabs_2 @ [(''s9'', ConnectError ''Authentication token required'')]\<rparr> \<and>
   auth_rejected verify_demo (db two_tabs_2) hs_forged \<and>
   io_connection verify_demo two_tabs_2 ''s9'' hs_forged =
     two_tabs_2\<lparr>outbox := outbox two_tabs_2 @ [(''s9'', ConnectError ''Authentication failed'')]\<rparr> \<and>
   sockets (io_connection verify_demo two_tabs_2 ''s2'' hs_alice) \<noteq> sockets two_tabs_2 \<and>
   \<not> auth_rejected verify_demo (db two_tabs_2) hs_alice"
proof -
  have a: "auth_rejected verify_demo (db two_tabs_2) hs_none"
    by (simp add: auth_rejected_def token_of_def hs_none_def present_def)
  have b: "auth_rejected verify_demo (db two_tabs_2) hs_forged"
    by (simp add: auth_rejected_def token_of_def hs_forged_def present_def verify_demo_def)
  have c: "sockets (io_connection verify_demo two_tabs_2 ''s2'' hs_alice) \<noteq> sockets two_tabs_2"
    using two_tabs_3_mem(3) by (simp add: two_tabs_3_def two_tabs_2_mem)
  have n: "io_connection verify_demo two_tabs_2 ''s9'' hs_none =
     two_tabs_2\<lparr>outbox := outbox two_tabs_2 @ [(''s9'', ConnectError ''Authentication token required'')]\<rparr>"
    by (simp add: io_connection_def setupMiddleware_def hs_none_def present_def emit_def)
  have f: "io_connection verify_demo two_tabs_2 ''s9'' hs_forged =
     two_tabs_2\<lparr>outbox := outbox two_tabs_2 @ [(''s9'', ConnectError ''Authentication failed'')]\<rparr>"
    by (simp add: io_connection_def setupMiddleware_def hs_forged_def present_def emit_def
          verify_demo_def)
  show ?thesis
    using refused_connection_not_registered [of verify_demo two_tabs_2 hs_alice "''s2''"] a b c n f
    by simp
qed

subsection \<open>Sending a message\<close>

lemma js_trim_idem: "js_trim (js_trim s) = js_trim s"
proof (cases "dropWhile js_whitespace (rev (dropWhile js_whitespace s))")
  case Nil
  then have "js_trim s = []" by (simp add: js_trim_def)
  moreover have "js_trim [] = []" by (simp add: js_trim_def)
  ultimately show ?thesis by simp
next
  case (Cons a as)
  let ?t = "js_trim s"
  have t: "?t = rev (a # as)" using Cons by (simp add: js_trim_def)
  have a: "\<not> js_whitespace a" using Cons by (metis hd_dropWhile list.sel(1) list.distinct(1))
  have l: "\<not> js_whitespace (last ?t)" using a by (simp add: t)
  have h: "\<not> js_whitespace (hd ?t)"
  proof -
    let ?d = "dropWhile js_whitespace s"
    have "takeWhile js_whitespace (rev ?d) @ dropWhile js_whitespace (rev ?d) = rev ?d"
      by (rule takeWhile_dropWhile_id)
    then obtain pre where pre: "rev ?d = pre @ a # as" using Cons by metis
    then have "?d = rev (a # as) @ rev pre" by (metis rev_append rev_rev_ident)
    then have "?d = ?t @ rev pre" by (simp add: t)
    moreover have "?t \<noteq> []" by (simp add: t)
    ultimately have "hd ?d = hd ?t" and "?d \<noteq> []" by auto
    then show ?thesis by (metis hd_dropWhile)
  qed
  have "?t \<noteq> []" by (simp add: t)
  then show ?thesis using h l by (rule js_trim_clean)
qed

lemma validateContent_trimmed:
  "validateContent (js_trim txt) = [] \<longleftrightarrow> 1 \<le> length (js_trim txt) \<and> length (js_trim txt) \<le> 1000"
proof -
  let ?t = "js_trim txt"
  have "validateContent ?t = [] \<longleftrightarrow> ?t \<noteq> [] \<and> \<not> length ?t < 1 \<and> \<not> length ?t > 1000"
    by (simp add: validateContent_def js_trim_idem)
  moreover have "?t \<noteq> [] \<longleftrightarrow> 1 \<le> length ?t" by (cases ?t) simp_all
  ultimately show ?thesis by auto
qed

lemma validate_chat:
  "rid \<noteq> [] \<Longrightarrow> userId sock \<noteq> [] \<Longrightarrow> username sock \<noteq> [] \<Longrightarrow>
   validate rid (userId sock) (username sock) (js_trim txt) None = validateContent (js_trim txt)"
  by (simp add: validate_def)

lemma Message_create_chat:
  assumes "connected d" and "validate rid (userId sock) (username sock) (js_trim txt) None = []"
  shows "Message_create d rid (userId sock) (username sock) (js_trim txt) None =
           Inr (d\<lparr>messages := messages d @ [chat_message rid sock txt]\<rparr>, chat_message rid sock txt)"
  using assms by (simp add: Message_create_def Let_def chat_message_def present_def js_trim_idem)

lemma Message_create_invalid:
  assumes "validate rid sender sname c t \<noteq> []"
  shows "Message_create d rid sender sname c t = Inl (ValidationError (validate rid sender sname c t))"
  using assms by (simp add: Message_create_def Let_def)

lemma handleSendMessage_accepted:
  assumes "send_accepted st sock (Some rid) (Some txt)"
  shows "handleSendMessage st sock (Some rid) (Some txt) =
           st\<lparr>db := (db st)\<lparr>messages := messages (db st) @ [chat_message rid sock txt]\<rparr>,
              outbox := outbox st @ map (\<lambda>i. (i, NewMessage (chat_message rid sock txt))) (io_to st rid)\<rparr>"
proof -
  from assms have p: "rid \<noteq> []" "txt \<noteq> []"
    by (auto simp: send_accepted_def present_def split: if_splits)
  then have pr: "present (Some rid) = Some rid" "present (Some txt) = Some txt"
    by (simp_all add: present_def)
  from assms obtain info ro where
    info: "connectedUsers st (userId sock) = Some info" "currentRoom info = Some rid"
    and c: "connected (db st)"
    and ro: "rooms (db st) rid = Some ro" "isActive ro"
    and u: "userId sock \<noteq> []" "username sock \<noteq> []"
    and len: "1 \<le> length (js_trim txt)" "length (js_trim txt) \<le> 1000"
    by (auto simp: send_accepted_def pr room_of_def split: option.splits)
  have "validate rid (userId sock) (username sock) (js_trim txt) None = []"
    using p(1) u len by (simp add: validate_chat validateContent_trimmed)
  with c have mc: "Message_create (db st) rid (userId sock) (username sock) (js_trim txt) None =
           Inr ((db st)\<lparr>messages := messages (db st) @ [chat_message rid sock txt]\<rparr>,
                chat_message rid sock txt)"
    by (rule Message_create_chat)
  show ?thesis
    using info c ro
    by (simp add: handleSendMessage_def pr Room_findById_def mc Let_def emit_def io_to_def)
qed

lemma two_tabs_2_db:
  "rooms (db two_tabs_2) = [''A'' \<mapsto> room_general\<lparr>participants := [''u1'']\<rparr>]"
  "messages (db two_tabs_2) = [joined_message ''A'' ''alice'']"
  "outbox two_tabs_2 =
     [(''s1'', Connected ''u1'' ''alice''),
      (''s1'', ParticipantsUpdate ''A'' [Participant ''u1'' ''alice'' True]),
      (''s1'', RoomJoined ''A'' ''General'' [Participant ''u1'' ''alice'' True])]"
  by (simp_all add: two_tabs_2_def two_tabs_1_eq model_defs db_general_def room_general_def tab1_def
       set_new.rep_eq set_add.rep_eq Let_def joined_message_def)



lemma js_trim_hello [simp]: "js_trim ''hello'' = ''hello''"
  by (simp add: js_trim_def js_whitespace_def)



lemma handleSendMessage_rest:
  assumes "present r = Some rid" and "present c = Some txt"
    and "room_of st (userId sock) = Some rid"
  shows "handleSendMessage st sock r c = send_rest st sock rid txt"
  using assms
  by (auto simp: handleSendMessage_def send_rest_def room_of_def split: option.splits)






lemma js_trim_bob [simp]: "js_trim ''bob joined the room'' = ''bob joined the room''"
  by (simp add: js_trim_def js_whitespace_def)






text \<open>
  C5. A \<^verbatim>\<open>send-message\<close> request that is not valid (room id or content missing,
  the sender not in the room, the database not connected, the room not stored or not
  active, an empty sender identity, or trimmed content of length 0 or above 1000) changes
  the state in one way only: one \<^verbatim>\<open>error\<close> event for the requesting connection is
  added to the emitted events. So no message is stored, no \<^verbatim>\<open>new-message\<close> event is
  emitted, and the registry and the participant sets are as before.
\<close>

theorem rejected_send_has_no_effect:
  assumes "\<not> send_accepted st sock r c"
  shows "\<exists>msg details. handleSendMessage st sock r c =
           st\<lparr>outbox := outbox st @ [(sid sock, ErrorEv msg details)]\<rparr>"
proof -
  have e: "\<exists>msg details. socket_emit st sock (ErrorEv m ds) =
           st\<lparr>outbox := outbox st @ [(sid sock, ErrorEv msg details)]\<rparr>" for m ds
    by (auto simp: socket_emit_def emit_def)
  show ?thesis
  proof (cases "send_accepted st sock r c")
    case True
    with assms show ?thesis by simp
  next
    case False
    show ?thesis
    proof (cases "present r")
      case None
      then show ?thesis using e by (simp add: handleSendMessage_def)
    next
      case (Some rid)
      note r = this
      show ?thesis
      proof (cases "present c")
        case None
        then show ?thesis using e r by (simp add: handleSendMessage_def)
      next
        case (Some body)
        note c = this
        have rid: "rid \<noteq> []" using r by (simp add: present_Some)
        show ?thesis
        proof (cases "room_of st (userId sock) = Some rid \<and> connected (db st) \<and>
                      (case rooms (db st) rid of Some ro \<Rightarrow> isActive ro | None \<Rightarrow> False)")
          case False
          then show ?thesis using e r c
            by (auto simp: handleSendMessage_def room_of_def Room_findById_def
                  split: option.splits)
        next
          case True
          then have bad: "validate rid (userId sock) (username sock) (js_trim body) None \<noteq> []"
            using assms r c rid
            by (auto simp: send_accepted_def validate_def validateContent_trimmed)
          have "handleSendMessage st sock r c = socket_emit st sock (ErrorEv ''Message validation failed''
                  (validate rid (userId sock) (username sock) (js_trim body) None))"
            using True r c Message_create_invalid [OF bad]
            by (auto simp: handleSendMessage_def room_of_def Room_findById_def split: option.splits)
          then show ?thesis using e by simp
        qed
      qed
    qed
  qed
qed

theorem rejected_send_has_no_effect_witness:
  "\<not> send_accepted two_tabs_2 tab1 (Some ''A'') (Some '''') \<and>
   handleSendMessage two_tabs_2 tab1 (Some ''A'') (Some '''') =
     two_tabs_2\<lparr>outbox := outbox two_tabs_2 @
       [(''s1'', ErrorEv ''Room ID and message content are required'' [])]\<rparr> \<and>
   \<not> send_accepted two_tabs_2 tab1 (Some ''B'') (Some ''hello'') \<and>
   handleSendMessage two_tabs_2 tab1 (Some ''B'') (Some ''hello'') =
     two_tabs_2\<lparr>outbox := outbox two_tabs_2 @
       [(''s1'', ErrorEv ''You must be in the room to send messages'' [])]\<rparr>"
proof -
  have a: "\<not> send_accepted two_tabs_2 tab1 (Some ''A'') (Some '''')"
    by (simp add: send_accepted_def present_def)
  have b: "\<not> send_accepted two_tabs_2 tab1 (Some ''B'') (Some ''hello'')"
    by (simp add: send_accepted_def present_def room_of_def two_tabs_2_mem tab1_def)
  have "handleSendMessage two_tabs_2 tab1 (Some ''A'') (Some '''') =
     two_tabs_2\<lparr>outbox := outbox two_tabs_2 @
       [(''s1'', ErrorEv ''Room ID and message content are required'' [])]\<rparr>"
    by (simp add: handleSendMessage_def present_def socket_emit_def emit_def tab1_def)
  moreover have "handleSendMessage two_tabs_2 tab1 (Some ''B'') (Some ''hello'') =
     two_tabs_2\<lparr>outbox := outbox two_tabs_2 @
       [(''s1'', ErrorEv ''You must be in the room to send messages'' [])]\<rparr>"
    by (simp add: handleSendMessage_def present_def socket_emit_def emit_def tab1_def
          two_tabs_2_mem)
  ultimately show ?thesis
    using rejected_send_has_no_effect [OF a] a b by simp
qed

text \<open>
  C4, as stated, fails when the room check rejects the request first. The sender is in
  room \<open>A\<close>, which has been deactivated since; the content is two spaces. Room id and
  content are present and the sender is in the room, and the trimmed content is empty,
  but the request fails with \<open>Room not found or inactive\<close>, not with the validation
  error.
\<close>

theorem inactive_room_counterexample:
  "present (Some ''A'') = Some ''A'' \<and> present (Some ''  '') = Some ''  '' \<and>
   room_of st_inactive (userId tab1) = Some ''A'' \<and>
   length (js_trim ''  '') = 0 \<and>
   handleSendMessage st_inactive tab1 (Some ''A'') (Some ''  '') =
     socket_emit st_inactive tab1 (ErrorEv ''Room not found or inactive'' [])"
  by (simp add: present_def room_of_def st_inactive_def two_tabs_2_mem tab1_def js_trim_def
        js_whitespace_def handleSendMessage_def Room_findById_def room_general_def)

text \<open>
  C4, amended. For a \<^verbatim>\<open>send-message\<close> request that passes the presence check, the
  membership check and the room check (database connected, room stored and active), from
  a connection with a non-empty user id and username: the request fails with the
  validation error if and only if the trimmed content has length 0 or more than 1000;
  otherwise the message with the trimmed content is stored. So trimmed content of
  exactly 1000 characters succeeds and of 1001 characters fails.
\<close>

theorem validation_error_iff_length:
  assumes "present r = Some rid" and "present c = Some txt"
    and "room_of st (userId sock) = Some rid"
    and "connected (db st)" and "rooms (db st) rid = Some ro" and "isActive ro"
    and "userId sock \<noteq> []" and "username sock \<noteq> []"
  shows "((\<exists>details. handleSendMessage st sock r c =
              socket_emit st sock (ErrorEv ''Message validation failed'' details)) \<longleftrightarrow>
          length (js_trim txt) = 0 \<or> 1000 < length (js_trim txt)) \<and>
         (1 \<le> length (js_trim txt) \<and> length (js_trim txt) \<le> 1000 \<longrightarrow>
          messages (db (handleSendMessage st sock r c)) =
            messages (db st) @ [chat_message rid sock txt])"
proof -
  have r: "r = Some rid" "rid \<noteq> []" and cc: "c = Some txt" "txt \<noteq> []"
    using assms(1,2) by (simp_all add: present_Some)
  have v: "validate rid (userId sock) (username sock) (js_trim txt) None = validateContent (js_trim txt)"
    using r(2) assms(7,8) by (rule validate_chat)
  obtain info where info: "connectedUsers st (userId sock) = Some info" "currentRoom info = Some rid"
    using assms(3) by (auto simp: room_of_def split: option.splits)
  show ?thesis
  proof (cases "1 \<le> length (js_trim txt) \<and> length (js_trim txt) \<le> 1000")
    case True
    then have "send_accepted st sock (Some rid) (Some txt)"
      using assms by (simp add: send_accepted_def r cc)
    then have eq: "handleSendMessage st sock r c =
        st\<lparr>db := (db st)\<lparr>messages := messages (db st) @ [chat_message rid sock txt]\<rparr>,
           outbox := outbox st @ map (\<lambda>i. (i, NewMessage (chat_message rid sock txt))) (io_to st rid)\<rparr>"
      unfolding r cc by (rule handleSendMessage_accepted)
    have "handleSendMessage st sock r c \<noteq> socket_emit st sock ev" for ev
    proof
      assume "handleSendMessage st sock r c = socket_emit st sock ev"
      then have "messages (db (handleSendMessage st sock r c)) = messages (db (socket_emit st sock ev))"
        by simp
      then show False by (simp add: eq)
    qed
    then have lhs: "\<not> (\<exists>details. handleSendMessage st sock r c =
              socket_emit st sock (ErrorEv ''Message validation failed'' details))" by blast
    have rhs: "\<not> (length (js_trim txt) = 0 \<or> 1000 < length (js_trim txt))"
      using True by linarith
    have stored: "messages (db (handleSendMessage st sock r c)) =
            messages (db st) @ [chat_message rid sock txt]" by (simp add: eq)
    from lhs rhs stored show ?thesis by blast
  next
    case False
    then have bad: "validate rid (userId sock) (username sock) (js_trim txt) None \<noteq> []"
      by (simp add: v validateContent_trimmed)
    have "handleSendMessage st sock r c = socket_emit st sock (ErrorEv ''Message validation failed''
            (validate rid (userId sock) (username sock) (js_trim txt) None))"
      using assms(1,2,4,5,6) info Message_create_invalid [OF bad]
      by (simp add: handleSendMessage_def Room_findById_def)
    then have lhs: "\<exists>details. handleSendMessage st sock r c =
              socket_emit st sock (ErrorEv ''Message validation failed'' details)" by blast
    have rhs: "length (js_trim txt) = 0 \<or> 1000 < length (js_trim txt)"
      using False by linarith
    from lhs rhs False show ?thesis by blast
  qed
qed

lemma js_trim_replicate_a: "0 < n \<Longrightarrow> js_trim (replicate n CHR ''a'') = replicate n CHR ''a''"
  by (rule js_trim_clean) (simp_all add: js_whitespace_def hd_replicate last_replicate)

theorem validation_error_iff_length_witness:
  "present (Some ''A'') = Some ''A'' \<and> room_of two_tabs_2 (userId tab1) = Some ''A'' \<and>
   connected (db two_tabs_2) \<and>
   rooms (db two_tabs_2) ''A'' = Some (room_general\<lparr>participants := [''u1'']\<rparr>) \<and>
   length (js_trim (replicate 1000 CHR ''a'')) = 1000 \<and>
   messages (db (handleSendMessage two_tabs_2 tab1 (Some ''A'') (Some (replicate 1000 CHR ''a'')))) =
     messages (db two_tabs_2) @ [chat_message ''A'' tab1 (replicate 1000 CHR ''a'')] \<and>
   length (js_trim (replicate 1001 CHR ''a'')) = 1001 \<and>
   (\<exists>details. handleSendMessage two_tabs_2 tab1 (Some ''A'') (Some (replicate 1001 CHR ''a'')) =
      socket_emit two_tabs_2 tab1 (ErrorEv ''Message validation failed'' details))"
proof -
  have p: "present (Some ''A'') = Some ''A''" by (simp add: present_def)
  have q: "present (Some (replicate n CHR ''a'')) = Some (replicate n CHR ''a'')" if "0 < n" for n
    using that by (simp add: present_def)
  have ro: "room_of two_tabs_2 (userId tab1) = Some ''A''"
    by (simp add: room_of_def two_tabs_2_mem tab1_def)
  have c: "connected (db two_tabs_2)" by (simp add: two_tabs_2_mem)
  have rm: "rooms (db two_tabs_2) ''A'' = Some (room_general\<lparr>participants := [''u1'']\<rparr>)"
    by (simp add: two_tabs_2_db)
  have act: "isActive (room_general\<lparr>participants := [''u1'']\<rparr>)" by (simp add: room_general_def)
  have u: "userId tab1 \<noteq> []" "username tab1 \<noteq> []" by (simp_all add: tab1_def)
  have l: "length (js_trim (replicate n CHR ''a'')) = n" if "0 < n" for n
    using that by (simp add: js_trim_replicate_a)
  show ?thesis
    using validation_error_iff_length [OF p q ro c rm act u, of 1000]
          validation_error_iff_length [OF p q ro c rm act u, of 1001]
    by (simp add: l p ro c rm)
qed

subsection \<open>Disconnecting\<close>
























subsection \<open>Switching rooms\<close>
















end
